theory Spec2Isabelle
  imports Complex_Main
begin

section \<open>Data model\<close>

text \<open>
  The validator (\<^verbatim>\<open>src/validator/core.py\<close>) checks a pandas DataFrame against a list of
  rule dictionaries. The embedding keeps the source's names and the order of its checks;
  pandas and \<^verbatim>\<open>re\<close> are modelled as far as the validator calls them, with the behaviour of
  pandas 2.

  A cell is one Python object stored in a column. \<open>Null k\<close> is a value that \<^verbatim>\<open>pd.isna\<close>
  accepts, and \<open>k\<close> says which one: Python's None, the float NaN, \<^verbatim>\<open>pd.NA\<close> or \<^verbatim>\<open>pd.NaT\<close>. They
  are all null for the checks, and they are different values as keys of \<^verbatim>\<open>duplicated\<close>.
  \<open>IntV\<close> is a Python int, \<open>NpIntV\<close> a numpy.int64 scalar (what iterating a nullable Int64
  column yields: it is not an instance of Python's int), \<open>FloatV\<close> a finite float given by
  the rational it denotes, \<open>StrV\<close> a str of code points below 256 and \<open>DateV\<close> a
  datetime.date.
  The infinities of a float are outside the model.
\<close>

datatype date = Date nat nat nat

datatype null_kind = PyNone | NaN | NA | NaT

datatype cell = Null null_kind | IntV int | NpIntV int | FloatV rat | StrV string | DateV date

text \<open>Exceptions that leave \<^verbatim>\<open>validate_data\<close>: a run that raises returns no report.\<close>

datatype exn = TypeError | ValueError | OverflowError | ReError

text \<open>
  A DataFrame: its index, which is the list of the row labels in row order, and its
  columns, each the list of its cells in row order. The labels are integers, which the
  \<^verbatim>\<open>int(idx)\<close> of a violation returns as they are; they need not start at 0, need not be
  consecutive and may repeat (a file read by \<^verbatim>\<open>read_json\<close> or \<^verbatim>\<open>read_parquet\<close> can carry its
  own index). Labels that are no integers are outside the model. \<open>nrows\<close> is \<^verbatim>\<open>len(df)\<close>.
  In a well-formed table the column names are distinct and every column has \<open>nrows\<close> cells.
\<close>

record dataframe =
  index :: "int list"
  columns :: "(string \<times> cell list) list"

definition nrows :: "dataframe \<Rightarrow> nat" where
  "nrows d = length (index d)"

definition wf_df :: "dataframe \<Rightarrow> bool" where
  "wf_df d = (distinct (map fst (columns d)) \<and>
              list_all (\<lambda>c. length (snd c) = nrows d) (columns d))"

text \<open>
  A rule dictionary. \<open>rule_column\<close> and \<open>rule_type\<close> are None when the key is absent;
  \<open>rule_min\<close> and \<open>rule_max\<close> are \<open>Null PyNone\<close> when \<^verbatim>\<open>rule.get\<close> returns None; \<open>rule_regex\<close>
  is None when the key \<^verbatim>\<open>"regex"\<close> is not in the rule.
\<close>

record rule =
  rule_column :: "string option"
  rule_type :: "string option"
  rule_not_null :: bool
  rule_unique :: bool
  rule_min :: cell
  rule_max :: cell
  rule_regex :: "string option"

record config =
  rules :: "rule list option"

record violation =
  row :: "int option"
  column :: string
  error :: string

record summary =
  rows_checked :: nat
  rows_failed :: nat
  validation_passed :: bool

record report =
  summary :: summary
  errors :: "violation list"

section \<open>Regular expressions\<close>

text \<open>
  The regular fragment of Python's \<^verbatim>\<open>re\<close> syntax, as a syntax tree. \<open>Bol\<close> and \<open>Eol\<close> are the
  anchors \<^verbatim>\<open>^\<close> and \<^verbatim>\<open>$\<close> (no MULTILINE flag), \<open>CSet neg items\<close> a bracket expression.
\<close>

datatype cset_item = CChar char | CRange char char | CSpace | CDigit | CWord

datatype regex =
    Empty
  | Lit char
  | AnyChar
  | CSet bool "cset_item list"
  | Bol
  | Eol
  | Seq regex regex
  | Alt regex regex
  | Star regex

definition Plus :: "regex \<Rightarrow> regex" where
  "Plus r = Seq r (Star r)"

definition Opt :: "regex \<Rightarrow> regex" where
  "Opt r = Alt r Empty"

definition newline :: char where
  "newline = CHR 0x0A"

text \<open>
  The classes \<^verbatim>\<open>\s\<close>, \<^verbatim>\<open>\d\<close> and \<^verbatim>\<open>\w\<close> of a str pattern. A character of the model is a
  code point below 256. Whitespace is the space, the controls 9 to 13, the separators 28
  to 31, the next-line control and the no-break space; a digit is one of 0 to 9; a word
  character is a digit, the underscore or an alphanumeric character, which includes the
  letters, superscript digits and fractions of Latin-1.
\<close>

definition is_space :: "char \<Rightarrow> bool" where
  "is_space c =
     (let n = (of_char c :: nat)
      in (9 \<le> n \<and> n \<le> 13) \<or> (28 \<le> n \<and> n \<le> 32) \<or> n = 133 \<or> n = 160)"

definition is_digit :: "char \<Rightarrow> bool" where
  "is_digit c = (48 \<le> (of_char c :: nat) \<and> (of_char c :: nat) \<le> 57)"

definition is_word :: "char \<Rightarrow> bool" where
  "is_word c =
     (let n = (of_char c :: nat)
      in is_digit c \<or> c = CHR ''_'' \<or> (65 \<le> n \<and> n \<le> 90) \<or> (97 \<le> n \<and> n \<le> 122)
         \<or> n = 170 \<or> n = 178 \<or> n = 179 \<or> n = 181 \<or> n = 185 \<or> n = 186
         \<or> (188 \<le> n \<and> n \<le> 190) \<or> (192 \<le> n \<and> n \<le> 214) \<or> (216 \<le> n \<and> n \<le> 246)
         \<or> 248 \<le> n)"

fun item_matches :: "cset_item \<Rightarrow> char \<Rightarrow> bool" where
  "item_matches (CChar a) c = (c = a)"
| "item_matches (CRange a b) c = ((of_char a :: nat) \<le> of_char c \<and> (of_char c :: nat) \<le> of_char b)"
| "item_matches CSpace c = is_space c"
| "item_matches CDigit c = is_digit c"
| "item_matches CWord c = is_word c"

definition cset_matches :: "bool \<Rightarrow> cset_item list \<Rightarrow> char \<Rightarrow> bool" where
  "cset_matches neg items c = (list_ex (\<lambda>i. item_matches i c) items \<noteq> neg)"

text \<open>
  \<open>take_char ok s P\<close>: from each position of \<open>P\<close> consume one character that \<open>ok\<close> accepts.
\<close>

definition take_char :: "(char \<Rightarrow> bool) \<Rightarrow> string \<Rightarrow> nat list \<Rightarrow> nat list" where
  "take_char ok s P = map Suc (filter (\<lambda>p. p < length s \<and> ok (s ! p)) P)"

text \<open>
  \<open>adv r s P\<close> is the list of positions of \<open>s\<close> where a match of \<open>r\<close> that starts at a
  position of \<open>P\<close> can end. A position is at most \<open>length s\<close>, so the closure under a starred
  expression is reached after at most \<open>length s + 1\<close> rounds: one round per character of
  \<open>s\<close> after the first.
\<close>

primrec adv :: "regex \<Rightarrow> string \<Rightarrow> nat list \<Rightarrow> nat list" where
  "adv Empty s P = P"
| "adv (Lit a) s P = take_char (\<lambda>c. c = a) s P"
| "adv AnyChar s P = take_char (\<lambda>c. c \<noteq> newline) s P"
| "adv (CSet neg items) s P = take_char (cset_matches neg items) s P"
| "adv Bol s P = filter (\<lambda>p. p = 0) P"
| "adv Eol s P = filter (\<lambda>p. p = length s \<or> (Suc p = length s \<and> s ! p = newline)) P"
| "adv (Seq a b) s P = adv b s (adv a s P)"
| "adv (Alt a b) s P = remdups (adv a s P @ adv b s P)"
| "adv (Star a) s P =
     fold (\<lambda>_ Q. remdups (Q @ adv a s Q)) s (remdups (P @ adv a s P))"

text \<open>\<^verbatim>\<open>pattern.fullmatch(s) is not None\<close>: some match starts at 0 and ends at the end.\<close>

definition fullmatch :: "regex \<Rightarrow> string \<Rightarrow> bool" where
  "fullmatch r s = (length s \<in> set (adv r s [0]))"

text \<open>\<^verbatim>\<open>pattern.search(s) is not None\<close>: some match starts and ends anywhere.\<close>

definition search :: "regex \<Rightarrow> string \<Rightarrow> bool" where
  "search r s = (adv r s [0..<Suc (length s)] \<noteq> [])"

text \<open>
  What the positions of \<open>adv\<close> stand for: \<open>matches r s i j\<close> holds when \<open>r\<close> matches the
  characters of \<open>s\<close> from position \<open>i\<close> up to position \<open>j\<close>. An anchor matches the empty
  string at the start, or at the end (also before a final newline).
\<close>

inductive matches :: "regex \<Rightarrow> string \<Rightarrow> nat \<Rightarrow> nat \<Rightarrow> bool" where
  m_Empty: "matches Empty s i i"
| m_Lit: "i < length s \<Longrightarrow> s ! i = a \<Longrightarrow> matches (Lit a) s i (Suc i)"
| m_AnyChar: "i < length s \<Longrightarrow> s ! i \<noteq> newline \<Longrightarrow> matches AnyChar s i (Suc i)"
| m_CSet: "i < length s \<Longrightarrow> cset_matches neg its (s ! i) \<Longrightarrow> matches (CSet neg its) s i (Suc i)"
| m_Bol: "matches Bol s 0 0"
| m_Eol: "i = length s \<or> (Suc i = length s \<and> s ! i = newline) \<Longrightarrow> matches Eol s i i"
| m_Seq: "matches a s i k \<Longrightarrow> matches b s k j \<Longrightarrow> matches (Seq a b) s i j"
| m_Alt1: "matches a s i j \<Longrightarrow> matches (Alt a b) s i j"
| m_Alt2: "matches b s i j \<Longrightarrow> matches (Alt a b) s i j"
| m_Star0: "matches (Star a) s i i"
| m_Star: "matches a s i k \<Longrightarrow> matches (Star a) s k j \<Longrightarrow> matches (Star a) s i j"

inductive_cases m_EmptyE: "matches Empty s i j"
inductive_cases m_LitE: "matches (Lit a) s i j"
inductive_cases m_AnyCharE: "matches AnyChar s i j"
inductive_cases m_CSetE: "matches (CSet neg its) s i j"
inductive_cases m_BolE: "matches Bol s i j"
inductive_cases m_EolE: "matches Eol s i j"
inductive_cases m_SeqE: "matches (Seq a b) s i j"
inductive_cases m_AltE: "matches (Alt a b) s i j"

text \<open>One round of the closure under a starred expression, on sets of positions.\<close>

definition star_step :: "regex \<Rightarrow> string \<Rightarrow> nat set \<Rightarrow> nat set" where
  "star_step a s Q = Q \<union> {j. \<exists>i\<in>Q. matches a s i j}"

section \<open>Library functions\<close>

text \<open>
  What the code calls in pandas and in Python's standard library and that works on text
  is a parameter of the model, so every theorem holds for each way these functions may
  parse and print:
  \<^item> \<open>parse_number\<close>: how \<^verbatim>\<open>pd.to_numeric\<close> reads a str cell (an int, a float, or no number);
  \<^item> \<open>float_of_str\<close> and \<open>float_of_int\<close>: Python's \<^verbatim>\<open>float()\<close> on a str (None: ValueError) and
    on an int (rounding to the nearest float);
  \<^item> \<open>parse_date\<close> and \<open>date_of_number\<close>: the calendar date \<^verbatim>\<open>pd.to_datetime\<close> reads from a
    str and from a number (None: NaT);
  \<^item> \<open>float_str\<close>: \<^verbatim>\<open>str()\<close> of a float;
  \<^item> \<open>re_compile\<close>: \<^verbatim>\<open>re.compile\<close> (None: the pattern is invalid, re.error).
\<close>

datatype number = PyInt int | PyFloat rat

record lib =
  parse_number :: "string \<Rightarrow> number option"
  float_of_str :: "string \<Rightarrow> rat option"
  float_of_int :: "int \<Rightarrow> rat"
  parse_date :: "string \<Rightarrow> date option"
  date_of_number :: "rat \<Rightarrow> date option"
  float_str :: "rat \<Rightarrow> string"
  re_compile :: "string \<Rightarrow> regex option"

section \<open>pandas and Python primitives\<close>

text \<open>\<^verbatim>\<open>pd.isna\<close> on a scalar.\<close>

fun isna :: "cell \<Rightarrow> bool" where
  "isna (Null k) = True"
| "isna c = False"

text \<open>\<^verbatim>\<open>str(n)\<close> for an int: decimal digits, with a minus sign when negative.\<close>

fun nat_str :: "nat \<Rightarrow> string" where
  "nat_str n =
     (if n < 10 then [''0123456789'' ! n]
      else nat_str (n div 10) @ [''0123456789'' ! (n mod 10)])"

definition int_str :: "int \<Rightarrow> string" where
  "int_str i = (if i < 0 then ''-'' @ nat_str (nat (- i)) else nat_str (nat i))"

text \<open>\<^verbatim>\<open>str(d)\<close> for a datetime.date: ISO format, the fields padded with zeros.\<close>

definition pad :: "nat \<Rightarrow> string \<Rightarrow> string" where
  "pad w s = replicate (w - length s) (CHR ''0'') @ s"

fun date_str :: "date \<Rightarrow> string" where
  "date_str (Date y m d) = pad 4 (nat_str y) @ ''-'' @ pad 2 (nat_str m) @ ''-'' @ pad 2 (nat_str d)"

text \<open>\<^verbatim>\<open>str(val)\<close>, which is also what an f-string writes for \<^verbatim>\<open>{val}\<close>.\<close>

fun null_str :: "null_kind \<Rightarrow> string" where
  "null_str PyNone = ''None''"
| "null_str NaN = ''nan''"
| "null_str NA = ''<NA>''"
| "null_str NaT = ''NaT''"

fun py_str :: "lib \<Rightarrow> cell \<Rightarrow> string" where
  "py_str L (Null k) = null_str k"
| "py_str L (IntV i) = int_str i"
| "py_str L (NpIntV i) = int_str i"
| "py_str L (FloatV r) = float_str L r"
| "py_str L (StrV s) = s"
| "py_str L (DateV d) = date_str d"

text \<open>
  \<^verbatim>\<open>pd.to_numeric(s, errors="coerce")\<close>. Numbers stay, a str is parsed, and what is no number
  becomes NaN, as does every null of the column. The result is one numeric column: when
  it holds a float or a null, it is a float64 column and its Python ints are floats.
\<close>

fun to_numeric_cell :: "lib \<Rightarrow> cell \<Rightarrow> cell" where
  "to_numeric_cell L (Null k) = Null NaN"
| "to_numeric_cell L (IntV i) = IntV i"
| "to_numeric_cell L (NpIntV i) = NpIntV i"
| "to_numeric_cell L (FloatV r) = FloatV r"
| "to_numeric_cell L (StrV s) =
     (case parse_number L s of
        None \<Rightarrow> Null NaN
      | Some (PyInt i) \<Rightarrow> IntV i
      | Some (PyFloat r) \<Rightarrow> FloatV r)"
| "to_numeric_cell L (DateV d) = Null NaN"

fun is_float_or_null :: "cell \<Rightarrow> bool" where
  "is_float_or_null (Null k) = True"
| "is_float_or_null (FloatV r) = True"
| "is_float_or_null c = False"

fun as_float :: "lib \<Rightarrow> cell \<Rightarrow> cell" where
  "as_float L (IntV i) = FloatV (float_of_int L i)"
| "as_float L c = c"

definition to_numeric :: "lib \<Rightarrow> cell list \<Rightarrow> cell list" where
  "to_numeric L s =
     (let vs = map (to_numeric_cell L) s
      in if list_ex is_float_or_null vs then map (as_float L) vs else vs)"

text \<open>
  \<^verbatim>\<open>.astype("Int64")\<close> on a numeric column. pandas casts safely: a null becomes pd.NA, a float
  with an integral value becomes that integer, and a float with a fractional part makes
  the whole call raise TypeError (cannot safely cast non-equivalent float64 to int64), as
  does a number outside the range of 64 bits. \<^verbatim>\<open>to_numeric\<close> leaves no str and no date in
  the column.
\<close>

definition in_int64 :: "int \<Rightarrow> bool" where
  "in_int64 i = (- (2 ^ 63) \<le> i \<and> i < 2 ^ 63)"

fun try_map :: "('a \<Rightarrow> exn + 'b) \<Rightarrow> 'a list \<Rightarrow> exn + 'b list" where
  "try_map f [] = Inr []"
| "try_map f (x # xs) =
     (case f x of
        Inl e \<Rightarrow> Inl e
      | Inr y \<Rightarrow> (case try_map f xs of Inl e \<Rightarrow> Inl e | Inr ys \<Rightarrow> Inr (y # ys)))"

fun Int64_cell :: "cell \<Rightarrow> exn + cell" where
  "Int64_cell (Null k) = Inr (Null NA)"
| "Int64_cell (IntV i) = (if in_int64 i then Inr (NpIntV i) else Inl TypeError)"
| "Int64_cell (NpIntV i) = Inr (NpIntV i)"
| "Int64_cell (FloatV r) =
     (if of_int \<lfloor>r\<rfloor> = r \<and> in_int64 \<lfloor>r\<rfloor> then Inr (NpIntV \<lfloor>r\<rfloor>) else Inl TypeError)"
| "Int64_cell (StrV s) = Inl TypeError"
| "Int64_cell (DateV d) = Inl TypeError"

definition astype_Int64 :: "cell list \<Rightarrow> exn + cell list" where
  "astype_Int64 s = try_map Int64_cell s"

text \<open>\<^verbatim>\<open>.astype("string")\<close>: every non-null cell becomes its text, a null becomes pd.NA.\<close>

definition astype_string :: "lib \<Rightarrow> cell list \<Rightarrow> cell list" where
  "astype_string L s = map (\<lambda>c. if isna c then Null NA else StrV (py_str L c)) s"

text \<open>
  \<^verbatim>\<open>pd.to_datetime(x, errors="coerce")\<close> followed by \<^verbatim>\<open>.date()\<close>, on one value: None is NaT.
\<close>

fun to_datetime :: "lib \<Rightarrow> cell \<Rightarrow> date option" where
  "to_datetime L (Null k) = None"
| "to_datetime L (IntV i) = date_of_number L (of_int i)"
| "to_datetime L (NpIntV i) = date_of_number L (of_int i)"
| "to_datetime L (FloatV r) = date_of_number L r"
| "to_datetime L (StrV s) = parse_date L s"
| "to_datetime L (DateV d) = Some d"

definition date_cell :: "lib \<Rightarrow> cell \<Rightarrow> cell" where
  "date_cell L c = (case to_datetime L c of None \<Rightarrow> Null NaT | Some d \<Rightarrow> DateV d)"

section \<open>Helpers of the validator\<close>

text \<open>
  \<^verbatim>\<open>_coerce_series_to_type\<close> (core.py, lines 7 to 20). For \<^verbatim>\<open>"int"\<close> the cast to Int64 follows
  \<^verbatim>\<open>to_numeric\<close> and can raise; an unknown type returns the column as it is.
\<close>

definition coerce_series_to_type :: "lib \<Rightarrow> cell list \<Rightarrow> string \<Rightarrow> exn + cell list" where
  "coerce_series_to_type L s expected =
     (if expected = ''int'' then astype_Int64 (to_numeric L s)
      else if expected = ''float'' then Inr (to_numeric L s)
      else if expected = ''string'' then Inr (astype_string L s)
      else if expected = ''date'' then Inr (map (date_cell L) s)
      else Inr s)"

text \<open>
  \<^verbatim>\<open>_regex_mismatch\<close> (lines 22 to 26): a null never mismatches; otherwise the text must
  match in full.
\<close>

definition regex_mismatch :: "lib \<Rightarrow> cell \<Rightarrow> regex \<Rightarrow> bool" where
  "regex_mismatch L val pattern =
     (if isna val then False else \<not> fullmatch pattern (py_str L val))"

text \<open>
  \<^verbatim>\<open>float(boundary)\<close>: ValueError on a str that is no number, TypeError on a date and on a
  null other than NaN, OverflowError on an int that rounds to \<open>2 ^ 1024\<close> or beyond (the
  largest float is \<open>2 ^ 1024 - 2 ^ 971\<close>, and the conversion rounds to nearest).
\<close>

definition fits_float :: "int \<Rightarrow> bool" where
  "fits_float i = (\<bar>i\<bar> < 2 ^ 1024 - 2 ^ 970)"

fun py_float :: "lib \<Rightarrow> cell \<Rightarrow> exn + cell" where
  "py_float L (Null k) = (if k = NaN then Inr (Null NaN) else Inl TypeError)"
| "py_float L (IntV i) =
     (if fits_float i then Inr (FloatV (float_of_int L i)) else Inl OverflowError)"
| "py_float L (NpIntV i) = Inr (FloatV (float_of_int L i))"
| "py_float L (FloatV r) = Inr (FloatV r)"
| "py_float L (StrV s) =
     (case float_of_str L s of None \<Rightarrow> Inl ValueError | Some r \<Rightarrow> Inr (FloatV r))"
| "py_float L (DateV d) = Inl TypeError"

text \<open>
  \<^verbatim>\<open>_maybe_cast(boundary, sample_value)\<close> (lines 130 to 143). A date has the attributes
  \<^verbatim>\<open>year\<close> and \<^verbatim>\<open>month\<close>, and the boundary is then read by \<^verbatim>\<open>pd.to_datetime\<close> (NaT when it is
  no date);
  \<^verbatim>\<open>isinstance(sample_value, (int, float))\<close> holds for a Python int and a float, not for a
  numpy.int64 and not for a str: for those the boundary is returned as it is.
\<close>

fun maybe_cast :: "lib \<Rightarrow> cell \<Rightarrow> cell \<Rightarrow> exn + cell" where
  "maybe_cast L boundary (Null k) = Inr boundary"
| "maybe_cast L boundary (DateV d) = Inr (date_cell L boundary)"
| "maybe_cast L boundary (IntV i) = py_float L boundary"
| "maybe_cast L boundary (FloatV r) = py_float L boundary"
| "maybe_cast L boundary (NpIntV i) = Inr boundary"
| "maybe_cast L boundary (StrV s) = Inr boundary"

text \<open>
  The comparison \<^verbatim>\<open>a < b\<close>; None when Python raises TypeError. Numbers compare by value,
  and a comparison of a number with NaN is false; strings compare by code point, dates by
  calendar order; a str, a number and a date do not compare with one another, and
  comparing a date with NaT raises (\<^verbatim>\<open>Cannot compare NaT with datetime.date object\<close>).
\<close>

fun str_lt :: "string \<Rightarrow> string \<Rightarrow> bool" where
  "str_lt [] [] = False"
| "str_lt [] (b # bs) = True"
| "str_lt (a # as) [] = False"
| "str_lt (a # as) (b # bs) =
     ((of_char a :: nat) < of_char b \<or> (a = b \<and> str_lt as bs))"

fun date_lt :: "date \<Rightarrow> date \<Rightarrow> bool" where
  "date_lt (Date y m d) (Date y' m' d') =
     (y < y' \<or> (y = y' \<and> (m < m' \<or> (m = m' \<and> d < d'))))"

fun num_val :: "cell \<Rightarrow> rat option" where
  "num_val (IntV i) = Some (of_int i)"
| "num_val (NpIntV i) = Some (of_int i)"
| "num_val (FloatV r) = Some r"
| "num_val c = None"

definition is_float :: "cell \<Rightarrow> bool" where
  "is_float c = (num_val c \<noteq> None \<or> c = Null NaN)"

fun py_lt :: "cell \<Rightarrow> cell \<Rightarrow> bool option" where
  "py_lt (StrV s) (StrV t) = Some (str_lt s t)"
| "py_lt (DateV d) (DateV e) = Some (date_lt d e)"
| "py_lt a b =
     (case (num_val a, num_val b) of
        (Some x, Some y) \<Rightarrow> Some (x < y)
      | _ \<Rightarrow> if is_float a \<and> is_float b then Some False else None)"

text \<open>\<^verbatim>\<open>a > b\<close> is the reflected comparison.\<close>

definition py_gt :: "cell \<Rightarrow> cell \<Rightarrow> bool option" where
  "py_gt a b = py_lt b a"

text \<open>
  Equality of two cells as keys of \<^verbatim>\<open>duplicated\<close>: numbers are equal when their values are
  (\<^verbatim>\<open>1 == 1.0\<close>); everything else is equal to itself only, so a null is equal to the nulls
  of its own kind (NaN to NaN, None to None) and to nothing else.
\<close>

definition key_eq :: "cell \<Rightarrow> cell \<Rightarrow> bool" where
  "key_eq a b =
     (case (num_val a, num_val b) of
        (Some x, Some y) \<Rightarrow> x = y
      | (None, None) \<Rightarrow> a = b
      | _ \<Rightarrow> False)"

text \<open>
  \<^verbatim>\<open>df.duplicated(subset=[col], keep=False)\<close>: the mask of the rows whose value in column
  \<open>col\<close> occurs in at least two rows.
\<close>

definition duplicated :: "dataframe \<Rightarrow> string \<Rightarrow> bool list" where
  "duplicated d col =
     (case map_of (columns d) col of
        None \<Rightarrow> []
      | Some raw \<Rightarrow> map (\<lambda>v. 2 \<le> length (filter (key_eq v) raw)) raw)"

text \<open>\<^verbatim>\<open>df.index[mask]\<close>: the row labels where the boolean mask is true.\<close>

definition index_where :: "dataframe \<Rightarrow> bool list \<Rightarrow> int list" where
  "index_where d bmask = map fst (filter snd (zip (index d) bmask))"

text \<open>
  \<^verbatim>\<open>s.items()\<close>: the pairs of row label and value of a column. A column read from a table,
  and every column coerced from it, carries the index of the table: \<open>idx\<close>.
\<close>

definition items :: "int list \<Rightarrow> cell list \<Rightarrow> (int \<times> cell) list" where
  "items idx s = zip idx s"

section \<open>The checks of one rule\<close>

definition row_error :: "int \<Rightarrow> string \<Rightarrow> string \<Rightarrow> violation" where
  "row_error idx col msg = \<lparr>row = Some idx, column = col, error = msg\<rparr>"

definition rule_error :: "string \<Rightarrow> string \<Rightarrow> violation" where
  "rule_error col msg = \<lparr>row = None, column = col, error = msg\<rparr>"

text \<open>
  The sections below follow the numbered steps of the loop body (lines 57 to 117).

  1) Type coercion. \<^verbatim>\<open>type_fail_mask = coerced.isna() & s.notna()\<close>; one violation per row of
  the mask; the checks that follow read the coerced column. A type that is absent or empty
  is falsy and skips the step.
\<close>

definition type_fail_mask :: "cell list \<Rightarrow> cell list \<Rightarrow> bool list" where
  "type_fail_mask coerced s = map (\<lambda>(c, v). isna c \<and> \<not> isna v) (zip coerced s)"

definition type_errors :: "dataframe \<Rightarrow> string \<Rightarrow> string \<Rightarrow> cell list \<Rightarrow> cell list \<Rightarrow> violation list" where
  "type_errors df_local col expected_type coerced s =
     map (\<lambda>idx. row_error idx col (''Type mismatch: expected '' @ expected_type))
       (index_where df_local (type_fail_mask coerced s))"

definition type_check ::
  "lib \<Rightarrow> dataframe \<Rightarrow> string \<Rightarrow> string option \<Rightarrow> cell list \<Rightarrow> exn + (violation list \<times> cell list)" where
  "type_check L df_local col expected s =
     (case expected of
        None \<Rightarrow> Inr ([], s)
      | Some expected_type \<Rightarrow>
          if expected_type = [] then Inr ([], s)
          else (case coerce_series_to_type L s expected_type of
                  Inl e \<Rightarrow> Inl e
                | Inr coerced \<Rightarrow>
                    Inr (type_errors df_local col expected_type coerced s, coerced)))"

text \<open>2) Not null: the rows of \<^verbatim>\<open>s[s.isna()].index\<close>.\<close>

definition not_null_errors :: "int list \<Rightarrow> string \<Rightarrow> cell list \<Rightarrow> violation list" where
  "not_null_errors idx col s =
     map (\<lambda>(idx, val). row_error idx col ''Null value not allowed'')
       (filter (\<lambda>(idx, val). isna val) (items idx s))"

text \<open>3) Unique: the rows of the table that \<^verbatim>\<open>duplicated\<close> marks, read from \<open>df_local\<close>.\<close>

definition unique_errors :: "dataframe \<Rightarrow> string \<Rightarrow> violation list" where
  "unique_errors df_local col =
     map (\<lambda>idx. row_error idx col ''Duplicate value found'')
       (index_where df_local (duplicated df_local col))"

text \<open>
  4) Range. \<open>below_min\<close> is the condition \<^verbatim>\<open>min_v is not None and val < _maybe_cast(min_v, val)\<close>
  and \<open>above_max\<close> the one for the maximum; \<open>Inl\<close> when the cast or the comparison raises.
  One \<^verbatim>\<open>try\<close> block holds both tests: an exception in the first skips the second, and an
  exception in the second keeps what the first has appended.
\<close>

definition below_min :: "lib \<Rightarrow> cell \<Rightarrow> cell \<Rightarrow> exn + bool" where
  "below_min L min_v val =
     (if min_v \<noteq> Null PyNone
      then (case maybe_cast L min_v val of
              Inl e \<Rightarrow> Inl e
            | Inr b \<Rightarrow> (case py_lt val b of None \<Rightarrow> Inl TypeError | Some t \<Rightarrow> Inr t))
      else Inr False)"

definition above_max :: "lib \<Rightarrow> cell \<Rightarrow> cell \<Rightarrow> exn + bool" where
  "above_max L max_v val =
     (if max_v \<noteq> Null PyNone
      then (case maybe_cast L max_v val of
              Inl e \<Rightarrow> Inl e
            | Inr b \<Rightarrow> (case py_gt val b of None \<Rightarrow> Inl TypeError | Some t \<Rightarrow> Inr t))
      else Inr False)"

definition incomparable :: "int \<Rightarrow> string \<Rightarrow> violation" where
  "incomparable idx col = row_error idx col ''Range check failed (incomparable types)''"

definition range_cell :: "lib \<Rightarrow> string \<Rightarrow> cell \<Rightarrow> cell \<Rightarrow> int \<Rightarrow> cell \<Rightarrow> violation list" where
  "range_cell L col min_v max_v idx val =
     (if isna val then []
      else (case below_min L min_v val of
              Inl e \<Rightarrow> [incomparable idx col]
            | Inr is_below \<Rightarrow>
                (if is_below
                 then [row_error idx col
                         (''Value '' @ py_str L val @ '' below min '' @ py_str L min_v)]
                 else [])
                @ (case above_max L max_v val of
                     Inl e \<Rightarrow> [incomparable idx col]
                   | Inr is_above \<Rightarrow>
                       if is_above
                       then [row_error idx col
                               (''Value '' @ py_str L val @ '' above max '' @ py_str L max_v)]
                       else [])))"

definition range_errors ::
  "lib \<Rightarrow> int list \<Rightarrow> string \<Rightarrow> cell \<Rightarrow> cell \<Rightarrow> cell list \<Rightarrow> violation list" where
  "range_errors L idx col min_v max_v s =
     (if min_v \<noteq> Null PyNone \<or> max_v \<noteq> Null PyNone
      then concat (map (\<lambda>(idx, val). range_cell L col min_v max_v idx val) (items idx s))
      else [])"

text \<open>5) Regex: the pattern is compiled once, before the loop; an invalid one raises.\<close>

definition regex_errors ::
  "lib \<Rightarrow> int list \<Rightarrow> string \<Rightarrow> regex \<Rightarrow> cell list \<Rightarrow> violation list" where
  "regex_errors L idx col pattern s =
     map (\<lambda>(idx, val). row_error idx col (''Regex mismatch: '' @ py_str L val))
       (filter (\<lambda>(idx, val). regex_mismatch L val pattern) (items idx s))"

definition regex_check ::
  "lib \<Rightarrow> int list \<Rightarrow> string \<Rightarrow> string option \<Rightarrow> cell list \<Rightarrow> exn + violation list" where
  "regex_check L idx col rx s =
     (case rx of
        None \<Rightarrow> Inr []
      | Some p \<Rightarrow>
          (case re_compile L p of
             None \<Rightarrow> Inl ReError
           | Some pattern \<Rightarrow> Inr (regex_errors L idx col pattern s)))"

text \<open>
  The body of \<^verbatim>\<open>for rule in rules\<close>: the violations one rule appends, or the exception it
  raises. \<^verbatim>\<open>if not col\<close> holds for a missing and for an empty name.
\<close>

definition check_rule :: "lib \<Rightarrow> dataframe \<Rightarrow> rule \<Rightarrow> exn + violation list" where
  "check_rule L df_local rule =
     (case rule_column rule of
        None \<Rightarrow> Inr [rule_error ''-'' ''Rule missing 'column' key'']
      | Some col \<Rightarrow>
          if col = [] then Inr [rule_error ''-'' ''Rule missing 'column' key'']
          else (case map_of (columns df_local) col of
                  None \<Rightarrow> Inr [rule_error col ''Column not found in dataset'']
                | Some s0 \<Rightarrow>
                    (case type_check L df_local col (rule_type rule) s0 of
                       Inl e \<Rightarrow> Inl e
                     | Inr (errors1, s) \<Rightarrow>
                         let idx = index df_local;
                             errors2 = (if rule_not_null rule then not_null_errors idx col s else []);
                             errors3 = (if rule_unique rule then unique_errors df_local col else []);
                             errors4 = range_errors L idx col (rule_min rule) (rule_max rule) s
                         in (case regex_check L idx col (rule_regex rule) s of
                               Inl e \<Rightarrow> Inl e
                             | Inr errors5 \<Rightarrow>
                                 Inr (errors1 @ errors2 @ errors3 @ errors4 @ errors5)))))"

section \<open>validate\_data\<close>

text \<open>
  The state of a run: the caller's table \<^verbatim>\<open>df\<close>, the working copy \<^verbatim>\<open>df_local = df.copy()\<close> and
  the list \<^verbatim>\<open>errors\<close>. A rule reads \<open>df_local\<close> and appends to \<open>errors\<close>; the coerced column is
  the local variable \<^verbatim>\<open>s\<close> of one iteration and is stored nowhere: no statement of the loop
  assigns to \<^verbatim>\<open>df\<close> or to \<open>df_local\<close>, and the pandas calls return new columns.
\<close>

record vstate =
  st_df :: dataframe
  st_df_local :: dataframe
  st_errors :: "violation list"

definition rule_step :: "lib \<Rightarrow> rule \<Rightarrow> vstate \<Rightarrow> exn + vstate" where
  "rule_step L rule st =
     (case check_rule L (st_df_local st) rule of
        Inl e \<Rightarrow> Inl e
      | Inr vs \<Rightarrow> Inr (st\<lparr>st_errors := st_errors st @ vs\<rparr>))"

fun run_rules :: "lib \<Rightarrow> rule list \<Rightarrow> vstate \<Rightarrow> exn + vstate" where
  "run_rules L [] st = Inr st"
| "run_rules L (rule # rest) st =
     (case rule_step L rule st of
        Inl e \<Rightarrow> Inl e
      | Inr st' \<Rightarrow> run_rules L rest st')"

text \<open>\<^verbatim>\<open>config.get("rules", [])\<close>.\<close>

definition get_rules :: "config \<Rightarrow> rule list" where
  "get_rules cfg = (case rules cfg of None \<Rightarrow> [] | Some rs \<Rightarrow> rs)"

definition init_state :: "dataframe \<Rightarrow> vstate" where
  "init_state df = \<lparr>st_df = df, st_df_local = df, st_errors = []\<rparr>"

definition validate_state :: "lib \<Rightarrow> dataframe \<Rightarrow> config \<Rightarrow> exn + vstate" where
  "validate_state L df cfg = run_rules L (get_rules cfg) (init_state df)"

text \<open>\<^verbatim>\<open>failed_rows = {e["row"] for e in errors if "row" in e}\<close>, without repetitions.\<close>

definition failed_rows :: "violation list \<Rightarrow> int list" where
  "failed_rows errs = remdups (List.map_filter row errs)"

definition build_report :: "vstate \<Rightarrow> report" where
  "build_report st =
     \<lparr>summary =
        \<lparr>rows_checked = nrows (st_df_local st),
         rows_failed = length (failed_rows (st_errors st)),
         validation_passed = (length (st_errors st) = 0)\<rparr>,
      errors = st_errors st\<rparr>"

definition validate_data :: "lib \<Rightarrow> dataframe \<Rightarrow> config \<Rightarrow> exn + report" where
  "validate_data L df cfg =
     (case validate_state L df cfg of
        Inl e \<Rightarrow> Inl e
      | Inr st \<Rightarrow> Inr (build_report st))"

section \<open>A reference instance of the library functions\<close>

text \<open>
  For concrete runs the library parameters are instantiated by functions that read and
  print the plain forms: decimal numerals with an optional sign and fraction, ISO dates
  \<^verbatim>\<open>YYYY-MM-DD\<close>, epoch nanoseconds, and patterns built from literals, escapes, \<^verbatim>\<open>.\<close>,
  \<^verbatim>\<open>^\<close>, \<^verbatim>\<open>$\<close>, bracket expressions, \<^verbatim>\<open>*\<close>, \<^verbatim>\<open>+\<close>, \<^verbatim>\<open>?\<close> and \<^verbatim>\<open>|\<close>. On these forms they agree with
  pandas and \<^verbatim>\<open>re\<close>; what they do not read (exponents, groups, counted repeats) they reject.
\<close>

definition digit_of :: "char \<Rightarrow> nat" where
  "digit_of c = of_char c - 48"

fun nat_of_digits :: "nat \<Rightarrow> string \<Rightarrow> nat" where
  "nat_of_digits acc [] = acc"
| "nat_of_digits acc (c # cs) = nat_of_digits (10 * acc + digit_of c) cs"

definition parse_unsigned :: "string \<Rightarrow> number option" where
  "parse_unsigned s =
     (let ip = takeWhile is_digit s; rest = dropWhile is_digit s
      in if rest = [] then (if ip = [] then None else Some (PyInt (int (nat_of_digits 0 ip))))
         else if hd rest = CHR ''.'' \<and> list_all is_digit (tl rest) \<and> (ip \<noteq> [] \<or> tl rest \<noteq> [])
         then Some (PyFloat (of_nat (nat_of_digits 0 (ip @ tl rest)) / 10 ^ length (tl rest)))
         else None)"

fun negate :: "number \<Rightarrow> number" where
  "negate (PyInt i) = PyInt (- i)"
| "negate (PyFloat r) = PyFloat (- r)"

fun ref_parse_number :: "string \<Rightarrow> number option" where
  "ref_parse_number [] = None"
| "ref_parse_number (c # cs) =
     (if c = CHR ''-'' then map_option negate (parse_unsigned cs)
      else if c = CHR ''+'' then parse_unsigned cs
      else parse_unsigned (c # cs))"

fun number_val :: "number \<Rightarrow> rat" where
  "number_val (PyInt i) = of_int i"
| "number_val (PyFloat r) = r"

definition ref_float_of_str :: "string \<Rightarrow> rat option" where
  "ref_float_of_str s = map_option number_val (ref_parse_number s)"

definition is_leap :: "nat \<Rightarrow> bool" where
  "is_leap y = (y mod 4 = 0 \<and> (y mod 100 \<noteq> 0 \<or> y mod 400 = 0))"

definition days_in_month :: "nat \<Rightarrow> nat \<Rightarrow> nat" where
  "days_in_month y m =
     (if m = 2 then (if is_leap y then 29 else 28)
      else if m = 4 \<or> m = 6 \<or> m = 9 \<or> m = 11 then 30 else 31)"

definition ref_parse_date :: "string \<Rightarrow> date option" where
  "ref_parse_date s =
     (if length s = 10 \<and> s ! 4 = CHR ''-'' \<and> s ! 7 = CHR ''-''
         \<and> list_all is_digit (take 4 s) \<and> list_all is_digit (take 2 (drop 5 s))
         \<and> list_all is_digit (drop 8 s)
      then (let y = nat_of_digits 0 (take 4 s);
                m = nat_of_digits 0 (take 2 (drop 5 s));
                d = nat_of_digits 0 (drop 8 s)
            in if 1 \<le> y \<and> 1 \<le> m \<and> m \<le> 12 \<and> 1 \<le> d \<and> d \<le> days_in_month y m
               then Some (Date y m d) else None)
      else None)"

text \<open>The calendar date of a day count since 1970-01-01 (proleptic Gregorian calendar).\<close>

definition civil_from_days :: "int \<Rightarrow> date" where
  "civil_from_days z0 =
     (let z = z0 + 719468;
          era = z div 146097;
          doe = z - era * 146097;
          yoe = (doe - doe div 1460 + doe div 36524 - doe div 146096) div 365;
          doy = doe - (365 * yoe + yoe div 4 - yoe div 100);
          mp = (5 * doy + 2) div 153;
          d = doy - (153 * mp + 2) div 5 + 1;
          m = (if mp < 10 then mp + 3 else mp - 9);
          y = yoe + era * 400 + (if m \<le> 2 then 1 else 0)
      in Date (nat y) (nat m) (nat d))"

text \<open>A number is read as nanoseconds since the epoch; outside 64 bits the result is NaT.\<close>

definition ref_date_of_number :: "rat \<Rightarrow> date option" where
  "ref_date_of_number r =
     (if - (2 ^ 63) < r \<and> r < 2 ^ 63
      then Some (civil_from_days (\<lfloor>r\<rfloor> div 86400000000000))
      else None)"

fun frac_digits :: "nat \<Rightarrow> rat \<Rightarrow> string" where
  "frac_digits 0 x = []"
| "frac_digits (Suc n) x =
     (if x = 0 then []
      else (''0123456789'' ! nat \<lfloor>10 * x\<rfloor>) # frac_digits n (10 * x - of_int \<lfloor>10 * x\<rfloor>))"

definition ref_float_str :: "rat \<Rightarrow> string" where
  "ref_float_str r =
     (let a = \<bar>r\<bar>; f = a - of_int \<lfloor>a\<rfloor>
      in (if r < 0 then ''-'' else []) @ nat_str (nat \<lfloor>a\<rfloor>) @ ''.''
         @ (if f = 0 then ''0'' else frac_digits 17 f))"

definition backslash :: char where
  "backslash = CHR 0x5C"

text \<open>An escape: a class, a control character, or an escaped punctuation character.\<close>

definition escape_item :: "char \<Rightarrow> cset_item option" where
  "escape_item c =
     (if c = CHR ''s'' then Some CSpace
      else if c = CHR ''d'' then Some CDigit
      else if c = CHR ''w'' then Some CWord
      else if c = CHR ''n'' then Some (CChar newline)
      else if c = CHR ''t'' then Some (CChar (CHR 0x09))
      else if c = CHR ''r'' then Some (CChar (CHR 0x0D))
      else if is_word c \<and> c \<noteq> CHR ''_'' then None
      else Some (CChar c))"

fun item_regex :: "cset_item \<Rightarrow> regex" where
  "item_regex (CChar c) = Lit c"
| "item_regex it = CSet False [it]"

fun seq_list :: "regex list \<Rightarrow> regex" where
  "seq_list [] = Empty"
| "seq_list [a] = a"
| "seq_list (a # b # rs) = Seq a (seq_list (b # rs))"

fun alt_list :: "regex list \<Rightarrow> regex" where
  "alt_list [] = Empty"
| "alt_list [a] = a"
| "alt_list (a # b # rs) = Alt a (alt_list (b # rs))"

text \<open>
  What a repeat may follow: a plain item, one that already has a repeat (a second \<^verbatim>\<open>?\<close>
  makes it lazy, which matches the same strings in full), a lazy one, or an anchor.
\<close>

datatype repeat_state = Plain | Repeated | Lazy | Anchor

fun quantify :: "char \<Rightarrow> (regex \<times> repeat_state) list \<Rightarrow> (regex \<times> repeat_state) list option" where
  "quantify q [] = None"
| "quantify q ((a, Plain) # cur) =
     Some ((if q = CHR ''*'' then Star a else if q = CHR ''+'' then Plus a else Opt a, Repeated) # cur)"
| "quantify q ((a, Repeated) # cur) = (if q = CHR ''?'' then Some ((a, Lazy) # cur) else None)"
| "quantify q ((a, Lazy) # cur) = None"
| "quantify q ((a, Anchor) # cur) = None"

datatype parse_mode = Top | InSet bool "cset_item list"

definition close_branch :: "(regex \<times> repeat_state) list \<Rightarrow> regex" where
  "close_branch cur = seq_list (rev (map fst cur))"

fun re_parse :: "parse_mode \<Rightarrow> regex list \<Rightarrow> (regex \<times> repeat_state) list \<Rightarrow> string \<Rightarrow> regex option" where
  "re_parse Top alts cur [] = Some (alt_list (rev (close_branch cur # alts)))"
| "re_parse (InSet neg its) alts cur [] = None"
| "re_parse Top alts cur (c # cs) =
     (if c = backslash then
        (case cs of
           [] \<Rightarrow> None
         | e # cs' \<Rightarrow>
             (case escape_item e of
                None \<Rightarrow> None
              | Some it \<Rightarrow> re_parse Top alts ((item_regex it, Plain) # cur) cs'))
      else if c = CHR ''['' then
        (case cs of
           [] \<Rightarrow> None
         | e # cs' \<Rightarrow>
             if e = CHR ''^'' then re_parse (InSet True []) alts cur cs'
             else re_parse (InSet False []) alts cur (e # cs'))
      else if c = CHR ''*'' \<or> c = CHR ''+'' \<or> c = CHR ''?'' then
        (case quantify c cur of
           None \<Rightarrow> None
         | Some cur' \<Rightarrow> re_parse Top alts cur' cs)
      else if c = CHR ''|'' then re_parse Top (close_branch cur # alts) [] cs
      else if c = CHR ''^'' then re_parse Top alts ((Bol, Anchor) # cur) cs
      else if c = CHR ''$'' then re_parse Top alts ((Eol, Anchor) # cur) cs
      else if c = CHR ''.'' then re_parse Top alts ((AnyChar, Plain) # cur) cs
      else if c = CHR ''('' \<or> c = CHR '')'' \<or> c = CHR ''{'' \<or> c = CHR ''}'' then None
      else re_parse Top alts ((Lit c, Plain) # cur) cs)"
| "re_parse (InSet neg its) alts cur (c # cs) =
     (if c = CHR '']'' \<and> its \<noteq> [] then re_parse Top alts ((CSet neg (rev its), Plain) # cur) cs
      else if c = backslash then
        (case cs of
           [] \<Rightarrow> None
         | e # cs' \<Rightarrow>
             (case escape_item e of
                None \<Rightarrow> None
              | Some it \<Rightarrow> re_parse (InSet neg (it # its)) alts cur cs'))
      else
        (case cs of
           [] \<Rightarrow> None
         | m # cs' \<Rightarrow>
             if m = CHR ''-'' then
               (case cs' of
                  [] \<Rightarrow> None
                | b # cs'' \<Rightarrow>
                    if b = CHR '']'' then re_parse (InSet neg (CChar c # its)) alts cur (m # cs')
                    else if b = backslash \<or> (of_char b :: nat) < of_char c then None
                    else re_parse (InSet neg (CRange c b # its)) alts cur cs'')
             else re_parse (InSet neg (CChar c # its)) alts cur (m # cs')))"

definition ref_compile :: "string \<Rightarrow> regex option" where
  "ref_compile p = re_parse Top [] [] p"

definition ref_lib :: lib where
  "ref_lib =
     \<lparr>parse_number = ref_parse_number,
      float_of_str = ref_float_of_str,
      float_of_int = of_int,
      parse_date = ref_parse_date,
      date_of_number = ref_date_of_number,
      float_str = ref_float_str,
      re_compile = ref_compile\<rparr>"

section \<open>Auxiliary notions\<close>

text \<open>Every violation of the list that carries a row carries a label of \<open>S\<close>.\<close>

definition rows_in :: "int set \<Rightarrow> violation list \<Rightarrow> bool" where
  "rows_in S vs = (\<forall>v\<in>set vs. \<forall>l. row v = Some l \<longrightarrow> l \<in> S)"




section \<open>Example data\<close>

text \<open>A rule dictionary with no key set.\<close>

definition empty_rule :: rule where
  "empty_rule =
     \<lparr>rule_column = None, rule_type = None, rule_not_null = False, rule_unique = False,
      rule_min = Null PyNone, rule_max = Null PyNone, rule_regex = None\<rparr>"

text \<open>
  The data of \<^verbatim>\<open>tests/test_validator.py\<close>. The column \<^verbatim>\<open>age = [10, None, 200]\<close> is a float64
  column in pandas. The pattern is \<^verbatim>\<open>^[^@\s]+@[^@\s]+\.[^@\s]+$\<close>.
\<close>

definition email_pattern :: string where
  "email_pattern =
     ''^[^@'' @ [backslash] @ ''s]+@[^@'' @ [backslash] @ ''s]+'' @ [backslash]
       @ ''.[^@'' @ [backslash] @ ''s]+$''"

definition test_df :: dataframe where
  "test_df =
     \<lparr>index = [0, 1, 2],
      columns =
        [(''user_id'', [IntV 1, IntV 2, IntV 2]),
         (''age'', [FloatV 10, Null NaN, FloatV 200]),
         (''email'', [StrV ''a@b.com'', StrV ''bad@'', StrV ''c@d.com'']),
         (''signup_date'', [StrV ''2022-01-01'', StrV ''2019-01-01'', StrV ''2023-05-05''])]\<rparr>"

definition test_config :: config where
  "test_config =
     \<lparr>rules = Some
        [empty_rule\<lparr>rule_column := Some ''user_id'', rule_unique := True\<rparr>,
         empty_rule\<lparr>rule_column := Some ''age'', rule_type := Some ''int'',
                     rule_min := IntV 0, rule_max := IntV 120\<rparr>,
         empty_rule\<lparr>rule_column := Some ''email'', rule_regex := Some email_pattern\<rparr>,
         empty_rule\<lparr>rule_column := Some ''signup_date'', rule_type := Some ''date'',
                     rule_min := StrV ''2020-01-01''\<rparr>]\<rparr>"

definition test_report :: report where
  "test_report =
     \<lparr>summary = \<lparr>rows_checked = 3, rows_failed = 2, validation_passed = False\<rparr>,
      errors =
        [\<lparr>row = Some 1, column = ''user_id'', error = ''Duplicate value found''\<rparr>,
         \<lparr>row = Some 2, column = ''user_id'', error = ''Duplicate value found''\<rparr>,
         \<lparr>row = Some 2, column = ''age'', error = ''Value 200 above max 120''\<rparr>,
         \<lparr>row = Some 1, column = ''email'', error = ''Regex mismatch: bad@''\<rparr>,
         \<lparr>row = Some 1, column = ''signup_date'',
            error = ''Value 2019-01-01 below min 2020-01-01''\<rparr>]\<rparr>"

text \<open>
  A rule on a column that the test's table does not have; every other key is set, and the
  pattern \<^verbatim>\<open>(\<close> is invalid.
\<close>

definition ghost_rule :: rule where
  "ghost_rule =
     empty_rule\<lparr>rule_column := Some ''ghost'', rule_type := Some ''int'', rule_not_null := True,
                 rule_unique := True, rule_min := IntV 0, rule_regex := Some ''(''\<rparr>"

definition ghost_config :: config where
  "ghost_config =
     \<lparr>rules = Some
        ([empty_rule\<lparr>rule_column := Some ''user_id'', rule_unique := True\<rparr>]
         @ ghost_rule
         # [empty_rule\<lparr>rule_column := Some ''email'', rule_regex := Some email_pattern\<rparr>])\<rparr>"

definition ghost_report :: report where
  "ghost_report =
     \<lparr>summary = \<lparr>rows_checked = 3, rows_failed = 2, validation_passed = False\<rparr>,
      errors =
        [\<lparr>row = Some 1, column = ''user_id'', error = ''Duplicate value found''\<rparr>,
         \<lparr>row = Some 2, column = ''user_id'', error = ''Duplicate value found''\<rparr>,
         \<lparr>row = None, column = ''ghost'', error = ''Column not found in dataset''\<rparr>,
         \<lparr>row = Some 1, column = ''email'', error = ''Regex mismatch: bad@''\<rparr>]\<rparr>"

text \<open>
  Two rules on one column of strings: the first coerces it to int, the second asks for
  no null in it.
\<close>

definition mixed_df :: dataframe where
  "mixed_df = \<lparr>index = [0, 1, 2], columns = [(''x'', [StrV ''1'', StrV ''x'', StrV ''1''])]\<rparr>"

definition mixed_config :: config where
  "mixed_config =
     \<lparr>rules = Some
        [empty_rule\<lparr>rule_column := Some ''x'', rule_type := Some ''int''\<rparr>,
         empty_rule\<lparr>rule_column := Some ''x'', rule_not_null := True\<rparr>]\<rparr>"

definition mixed_report :: report where
  "mixed_report =
     \<lparr>summary = \<lparr>rows_checked = 3, rows_failed = 1, validation_passed = False\<rparr>,
      errors = [\<lparr>row = Some 1, column = ''x'', error = ''Type mismatch: expected int''\<rparr>]\<rparr>"







text \<open>A str cell that reads as the float 3.5, and a rule that asks for int.\<close>

definition frac_df :: dataframe where
  "frac_df = \<lparr>index = [0], columns = [(''age'', [StrV ''3.5''])]\<rparr>"

definition int_rule :: "string \<Rightarrow> rule" where
  "int_rule col = empty_rule\<lparr>rule_column := Some col, rule_type := Some ''int''\<rparr>"

text \<open>A column with a number, a null and a word.\<close>

definition coerce_df :: dataframe where
  "coerce_df = \<lparr>index = [0, 1, 2], columns = [(''n'', [StrV ''1'', Null PyNone, StrV ''x''])]\<rparr>"

text \<open>The rule of the test on the column \<^verbatim>\<open>email\<close>, and the syntax tree of its pattern.\<close>

definition email_rule :: rule where
  "email_rule = empty_rule\<lparr>rule_column := Some ''email'', rule_regex := Some email_pattern\<rparr>"

definition email_regex :: regex where
  "email_regex =
     (let part = Plus (CSet True [CChar (CHR ''@''), CSpace])
      in Seq Bol (Seq part (Seq (Lit (CHR ''@'')) (Seq part (Seq (Lit (CHR ''.'')) (Seq part Eol))))))"

text \<open>The column \<^verbatim>\<open>[1, 2, 2, 3]\<close> and a rule that asks for unique values.\<close>

definition dup_df :: dataframe where
  "dup_df = \<lparr>index = [0, 1, 2, 3], columns = [(''id'', [IntV 1, IntV 2, IntV 2, IntV 3])]\<rparr>"

definition unique_rule :: "string \<Rightarrow> rule" where
  "unique_rule col = empty_rule\<lparr>rule_column := Some col, rule_unique := True\<rparr>"

text \<open>
  Three strings that differ as text, two of which read as the same number, under a rule
  that asks for float and for unique values.
\<close>

definition text_keys_df :: dataframe where
  "text_keys_df = \<lparr>index = [0, 1, 2], columns = [(''k'', [StrV ''2'', StrV ''2.0'', StrV ''7''])]\<rparr>"

definition float_unique_rule :: rule where
  "float_unique_rule =
     empty_rule\<lparr>rule_column := Some ''k'', rule_type := Some ''float'', rule_unique := True\<rparr>"

text \<open>
  Columns of objects that hold nulls: NaN twice and None once, and None and NaN once each.
\<close>

definition null_keys_df :: dataframe where
  "null_keys_df =
     \<lparr>index = [0, 1, 2, 3],
      columns = [(''id'', [Null NaN, StrV ''a'', Null NaN, Null PyNone])]\<rparr>"

definition none_nan_df :: dataframe where
  "none_nan_df = \<lparr>index = [0, 1, 2], columns = [(''id'', [Null PyNone, StrV ''a'', Null NaN])]\<rparr>"

text \<open>A table whose index is not the default one: its rows carry the labels 10, 20 and 30.\<close>

definition labelled_df :: dataframe where
  "labelled_df =
     \<lparr>index = [10, 20, 30],
      columns =
        [(''id'', [IntV 1, IntV 1, IntV 2]),
         (''email'', [StrV ''a@b.com'', Null PyNone, StrV ''bad@''])]\<rparr>"

definition labelled_config :: config where
  "labelled_config =
     \<lparr>rules = Some
        [empty_rule\<lparr>rule_column := Some ''id'', rule_type := Some ''int'', rule_unique := True,
                     rule_max := IntV 1\<rparr>,
         empty_rule\<lparr>rule_column := Some ''email'', rule_not_null := True,
                     rule_regex := Some email_pattern\<rparr>]\<rparr>"

definition labelled_report :: report where
  "labelled_report =
     \<lparr>summary = \<lparr>rows_checked = 3, rows_failed = 3, validation_passed = False\<rparr>,
      errors =
        [\<lparr>row = Some 10, column = ''id'', error = ''Duplicate value found''\<rparr>,
         \<lparr>row = Some 20, column = ''id'', error = ''Duplicate value found''\<rparr>,
         \<lparr>row = Some 30, column = ''id'', error = ''Value 2 above max 1''\<rparr>,
         \<lparr>row = Some 20, column = ''email'', error = ''Null value not allowed''\<rparr>,
         \<lparr>row = Some 30, column = ''email'', error = ''Regex mismatch: bad@''\<rparr>]\<rparr>"

section \<open>The loop over the rules\<close>

lemma rule_step_Inr:
  "rule_step L r st = Inr st' \<longleftrightarrow>
     (\<exists>vs. check_rule L (st_df_local st) r = Inr vs \<and> st' = st\<lparr>st_errors := st_errors st @ vs\<rparr>)"
  by (auto simp: rule_step_def split: sum.splits)

lemma run_rules_append:
  "run_rules L (rs1 @ rs2) st =
     (case run_rules L rs1 st of Inl e \<Rightarrow> Inl e | Inr st' \<Rightarrow> run_rules L rs2 st')"
  by (induction rs1 arbitrary: st) (auto split: sum.splits)

text \<open>
  A run that returns has changed neither table, and has appended what each rule yields
  when checked against the working copy.
\<close>

lemma run_rules_Inr:
  "run_rules L rs st = Inr st' \<Longrightarrow>
     st_df st' = st_df st \<and> st_df_local st' = st_df_local st \<and>
     (\<exists>vss. list_all2 (\<lambda>r vs. check_rule L (st_df_local st) r = Inr vs) rs vss \<and>
            st_errors st' = st_errors st @ concat vss)"
proof (induction rs arbitrary: st)
  case Nil
  then show ?case by simp
next
  case (Cons r rs)
  from Cons.prems obtain st1
    where s1: "rule_step L r st = Inr st1" and s2: "run_rules L rs st1 = Inr st'"
    by (auto split: sum.splits)
  from s1 obtain vs where vs: "check_rule L (st_df_local st) r = Inr vs"
    and st1: "st1 = st\<lparr>st_errors := st_errors st @ vs\<rparr>"
    by (auto simp: rule_step_Inr)
  from Cons.IH[OF s2] obtain vss where
    a: "st_df st' = st_df st1" "st_df_local st' = st_df_local st1"
    and b: "list_all2 (\<lambda>r vs. check_rule L (st_df_local st1) r = Inr vs) rs vss"
    and c: "st_errors st' = st_errors st1 @ concat vss"
    by blast
  have "list_all2 (\<lambda>r vs. check_rule L (st_df_local st) r = Inr vs) (r # rs) (vs # vss)"
    using b vs st1 by simp
  moreover have "st_errors st' = st_errors st @ concat (vs # vss)"
    using c st1 by simp
  ultimately show ?case using a st1 by auto
qed

lemma validate_data_Inr:
  "validate_data L df cfg = Inr rep \<longleftrightarrow>
     (\<exists>st. validate_state L df cfg = Inr st \<and> rep = build_report st)"
  by (auto simp: validate_data_def split: sum.splits)

lemma set_failed_rows: "set (failed_rows errs) = {r. \<exists>e\<in>set errs. row e = Some r}"
  by (force simp: failed_rows_def List.map_filter_def)

lemma length_failed_rows:
  "length (failed_rows errs) = card {r. \<exists>e\<in>set errs. row e = Some r}"
  unfolding set_failed_rows[symmetric]
  by (simp add: failed_rows_def length_remdups_card_conv)

lemma check_rule_missing_column:
  assumes "rule_column rule = Some col" "col \<noteq> []" "col \<notin> fst ` set (columns d)"
  shows "check_rule L d rule = Inr [rule_error col ''Column not found in dataset'']"
proof -
  have "map_of (columns d) col = None"
    using assms(3) by (simp add: map_of_eq_None_iff)
  then show ?thesis
    using assms(1,2) by (simp add: check_rule_def)
qed

text \<open>The run of the test: the report that \<^verbatim>\<open>validate_data\<close> returns on the test's data.\<close>

lemma test_run: "validate_data ref_lib test_df test_config = Inr test_report"
  by code_simp

section \<open>The summary\<close>

text \<open>
  C9. A config without the key \<^verbatim>\<open>rules\<close>, or with an empty list of rules, is not an error:
  for every table the report has no violation, \<open>validation_passed\<close> is true, \<open>rows_failed\<close> is
  0 and \<open>rows_checked\<close> is the table's row count.
\<close>

theorem empty_rules_report:
  assumes "rules cfg = None \<or> rules cfg = Some []"
  shows "validate_data L df cfg =
           Inr \<lparr>summary = \<lparr>rows_checked = nrows df, rows_failed = 0, validation_passed = True\<rparr>,
                errors = []\<rparr>"
  using assms
  by (auto simp: validate_data_def validate_state_def get_rules_def init_state_def
      build_report_def failed_rows_def)

theorem empty_rules_report_witness:
  "rules \<lparr>rules = None\<rparr> = None
   \<and> validate_data ref_lib test_df \<lparr>rules = None\<rparr> =
       Inr \<lparr>summary = \<lparr>rows_checked = 3, rows_failed = 0, validation_passed = True\<rparr>,
            errors = []\<rparr>
   \<and> rules \<lparr>rules = Some []\<rparr> = Some []
   \<and> validate_data ref_lib test_df \<lparr>rules = Some []\<rparr> =
       Inr \<lparr>summary = \<lparr>rows_checked = 3, rows_failed = 0, validation_passed = True\<rparr>,
            errors = []\<rparr>"
  using empty_rules_report[of "\<lparr>rules = None\<rparr>" ref_lib test_df]
    empty_rules_report[of "\<lparr>rules = Some []\<rparr>" ref_lib test_df]
  by (simp add: test_df_def nrows_def)

text \<open>
  C2. In every report, \<open>validation_passed\<close> is true if and only if the list of violations
  is empty, and \<open>rows_failed\<close> is the number of distinct row indices among the violations
  that carry a row. Hence some input has \<open>rows_failed = 0\<close> and \<open>validation_passed\<close> false:
  a rule that names a missing column.
\<close>

theorem summary_consistent:
  "(validate_data L df cfg = Inr rep \<longrightarrow>
      (validation_passed (summary rep) \<longleftrightarrow> errors rep = []) \<and>
      rows_failed (summary rep) = card {r. \<exists>e\<in>set (errors rep). row e = Some r})
   \<and> (\<exists>df' cfg' rep'. validate_data L df' cfg' = Inr rep' \<and>
         rows_failed (summary rep') = 0 \<and> \<not> validation_passed (summary rep'))"
proof (intro conjI impI)
  assume "validate_data L df cfg = Inr rep"
  then obtain st where "rep = build_report st"
    by (auto simp: validate_data_Inr)
  then show "validation_passed (summary rep) \<longleftrightarrow> errors rep = []"
    and "rows_failed (summary rep) = card {r. \<exists>e\<in>set (errors rep). row e = Some r}"
    by (simp_all add: build_report_def length_failed_rows)
next
  let ?d = "\<lparr>index = [], columns = []\<rparr>"
  let ?r = "empty_rule\<lparr>rule_column := Some ''ghost''\<rparr>"
  let ?v = "rule_error ''ghost'' ''Column not found in dataset''"
  have "check_rule L ?d ?r = Inr [?v]"
    by (rule check_rule_missing_column) (simp_all add: empty_rule_def)
  then have "validate_data L ?d \<lparr>rules = Some [?r]\<rparr> =
      Inr (build_report \<lparr>st_df = ?d, st_df_local = ?d, st_errors = [?v]\<rparr>)"
    by (simp add: validate_data_def validate_state_def get_rules_def init_state_def
        rule_step_def)
  then show "\<exists>df' cfg' rep'. validate_data L df' cfg' = Inr rep' \<and>
         rows_failed (summary rep') = 0 \<and> \<not> validation_passed (summary rep')"
    by (intro exI conjI, assumption)
      (simp_all add: build_report_def failed_rows_def rule_error_def)
qed

theorem summary_consistent_witness:
  "validate_data ref_lib test_df test_config = Inr test_report
   \<and> (validation_passed (summary test_report) \<longleftrightarrow> errors test_report = [])
   \<and> rows_failed (summary test_report) =
       card {r. \<exists>e\<in>set (errors test_report). row e = Some r}"
  using test_run summary_consistent[of ref_lib test_df test_config test_report]
  by blast

section \<open>Rows and lengths\<close>

lemma length_try_map: "try_map f xs = Inr ys \<Longrightarrow> length ys = length xs"
  by (induction xs arbitrary: ys) (auto split: sum.splits)

lemma length_coerce:
  "coerce_series_to_type L s t = Inr c \<Longrightarrow> length c = length s"
  by (auto simp: coerce_series_to_type_def astype_Int64_def to_numeric_def Let_def
      astype_string_def dest: length_try_map split: if_splits)

lemma wf_df_length:
  "wf_df d \<Longrightarrow> map_of (columns d) col = Some s \<Longrightarrow> length s = nrows d"
  by (auto simp: wf_df_def list_all_iff dest: map_of_SomeD)

text \<open>The pairs of two lists, by position.\<close>

lemma zip_positions:
  "zip xs ys = map (\<lambda>i. (xs ! i, ys ! i)) [0..<min (length xs) (length ys)]"
  by (rule nth_equalityI) simp_all

lemma set_index_where: "set (index_where d m) \<subseteq> set (index d)"
  by (auto simp: index_where_def dest: set_zip_leftD)

lemma index_where_eq:
  assumes "length m = nrows d"
  shows "index_where d m = map (\<lambda>i. index d ! i) (filter (\<lambda>i. m ! i) [0..<nrows d])"
proof -
  have "zip (index d) m = map (\<lambda>i. (index d ! i, m ! i)) [0..<nrows d]"
    using zip_positions[of "index d" m] assms by (simp add: nrows_def)
  then show ?thesis
    by (simp add: index_where_def filter_map o_def)
qed

lemma items_eq:
  "length idx = length s \<Longrightarrow> items idx s = map (\<lambda>i. (idx ! i, s ! i)) [0..<length s]"
  unfolding items_def using zip_positions[of idx s] by simp

lemma set_items: "(l, v) \<in> set (items idx s) \<Longrightarrow> l \<in> set idx"
  unfolding items_def by (rule set_zip_leftD)

lemma rows_in_append [simp]: "rows_in S (a @ b) \<longleftrightarrow> rows_in S a \<and> rows_in S b"
  by (auto simp: rows_in_def)

lemma rows_in_Nil [simp]: "rows_in S []"
  by (simp add: rows_in_def)

lemma rows_in_type_errors: "rows_in (set (index d)) (type_errors d col t c s)"
  using set_index_where[of d] by (auto simp: rows_in_def type_errors_def row_error_def)

lemma rows_in_unique_errors: "rows_in (set (index d)) (unique_errors d col)"
  using set_index_where[of d] by (auto simp: rows_in_def unique_errors_def row_error_def)

lemma rows_in_not_null: "rows_in (set idx) (not_null_errors idx col s)"
  by (auto simp: rows_in_def not_null_errors_def row_error_def dest: set_items)

lemma rows_in_regex: "rows_in (set idx) (regex_errors L idx col p s)"
  by (auto simp: rows_in_def regex_errors_def row_error_def dest: set_items)

lemma row_range_cell: "v \<in> set (range_cell L col mn mx l val) \<Longrightarrow> row v = Some l"
  by (auto simp: range_cell_def incomparable_def row_error_def split: if_splits sum.splits)

lemma rows_in_range: "rows_in (set idx) (range_errors L idx col mn mx s)"
  by (auto simp: rows_in_def range_errors_def dest!: row_range_cell dest: set_items)

section \<open>The shape of one rule's result\<close>

lemma check_rule_present:
  assumes "rule_column r = Some col" "col \<noteq> []" "map_of (columns d) col = Some s0"
  shows "check_rule L d r =
     (case type_check L d col (rule_type r) s0 of
        Inl e \<Rightarrow> Inl e
      | Inr (errors1, s) \<Rightarrow>
          (case regex_check L (index d) col (rule_regex r) s of
             Inl e \<Rightarrow> Inl e
           | Inr errors5 \<Rightarrow>
               Inr (errors1
                    @ (if rule_not_null r then not_null_errors (index d) col s else [])
                    @ (if rule_unique r then unique_errors d col else [])
                    @ range_errors L (index d) col (rule_min r) (rule_max r) s
                    @ errors5)))"
  using assms by (simp add: check_rule_def Let_def split: sum.splits prod.splits)

lemma check_rule_Inr_cases:
  assumes "check_rule L d r = Inr vs"
  obtains
    (missing_key) "rule_column r = None \<or> rule_column r = Some []"
      "vs = [rule_error ''-'' ''Rule missing 'column' key'']"
  | (missing_column) col where "rule_column r = Some col" "col \<noteq> []"
      "map_of (columns d) col = None" "vs = [rule_error col ''Column not found in dataset'']"
  | (checked) col s0 errors1 s errors5 where "rule_column r = Some col" "col \<noteq> []"
      "map_of (columns d) col = Some s0"
      "type_check L d col (rule_type r) s0 = Inr (errors1, s)"
      "regex_check L (index d) col (rule_regex r) s = Inr errors5"
      "vs = errors1
            @ (if rule_not_null r then not_null_errors (index d) col s else [])
            @ (if rule_unique r then unique_errors d col else [])
            @ range_errors L (index d) col (rule_min r) (rule_max r) s
            @ errors5"
proof (cases "rule_column r")
  case None
  then show ?thesis using assms missing_key by (simp add: check_rule_def)
next
  case (Some col)
  show ?thesis
  proof (cases "col = []")
    case True
    then show ?thesis using assms Some missing_key by (simp add: check_rule_def)
  next
    case False
    show ?thesis
    proof (cases "map_of (columns d) col")
      case None
      then show ?thesis using assms Some False missing_column by (simp add: check_rule_def)
    next
      case (Some s0)
      note s0 = this
      from assms show ?thesis
        unfolding check_rule_present[OF \<open>rule_column r = Some col\<close> False s0]
        using checked[OF \<open>rule_column r = Some col\<close> False s0]
        by (auto split: sum.splits prod.splits)
    qed
  qed
qed

lemma type_check_Inr:
  assumes "type_check L d col ty s0 = Inr (errors1, s)"
  shows "length s = length s0"
    and "(ty = None \<or> ty = Some []) \<Longrightarrow> errors1 = [] \<and> s = s0"
    and "ty = Some t \<Longrightarrow> t \<noteq> [] \<Longrightarrow>
           coerce_series_to_type L s0 t = Inr s \<and> errors1 = type_errors d col t s s0"
  using assms
  by (auto simp: type_check_def dest: length_coerce split: option.splits if_splits sum.splits)

lemma rows_in_type_check:
  assumes "type_check L d col ty s0 = Inr (errors1, s)"
  shows "rows_in (set (index d)) errors1"
  using assms
  by (auto simp: type_check_def rows_in_type_errors split: option.splits if_splits sum.splits)

lemma rows_in_check_rule:
  assumes "check_rule L d r = Inr vs"
  shows "rows_in (set (index d)) vs"
  using assms
proof (cases rule: check_rule_Inr_cases)
  case missing_key
  then show ?thesis by (simp add: rows_in_def rule_error_def)
next
  case (missing_column col)
  then show ?thesis by (simp add: rows_in_def rule_error_def)
next
  case (checked col s0 errors1 s errors5)
  have e5: "rows_in (set (index d)) errors5"
    using checked(5) rows_in_regex[of "index d" L col _ s]
    by (auto simp: regex_check_def split: option.splits)
  show ?thesis
    unfolding checked(6)
    using rows_in_type_check[OF checked(4)] e5 rows_in_not_null[of "index d" col s]
      rows_in_unique_errors[of d col] rows_in_range[of "index d" L col]
    by simp
qed

lemma rows_in_concat:
  "list_all2 (\<lambda>r vs. check_rule L d r = Inr vs) rs vss \<Longrightarrow> rows_in (set (index d)) (concat vss)"
  by (induction rs vss rule: list_all2_induct) (auto dest: rows_in_check_rule)

text \<open>
  C10. Every violation that carries a row carries a label of the index of the validated
  table, whatever the labels are; consequently \<open>rows_failed\<close> is at most \<open>rows_checked\<close>.
\<close>

theorem violation_rows_in_table:
  assumes "validate_data L df cfg = Inr rep"
  shows "(\<forall>v\<in>set (errors rep). \<forall>l. row v = Some l \<longrightarrow> l \<in> set (index df))
         \<and> rows_failed (summary rep) \<le> rows_checked (summary rep)"
proof -
  from assms obtain st where st: "validate_state L df cfg = Inr st" and rep: "rep = build_report st"
    by (auto simp: validate_data_Inr)
  from run_rules_Inr[OF st[unfolded validate_state_def]] obtain vss where
    loc: "st_df_local st = df" and
    all: "list_all2 (\<lambda>r vs. check_rule L df r = Inr vs) (get_rules cfg) vss" and
    errs: "st_errors st = concat vss"
    by (auto simp: init_state_def)
  have inside: "rows_in (set (index df)) (errors rep)"
    using rows_in_concat[OF all] errs rep by (simp add: build_report_def)
  have "set (failed_rows (errors rep)) \<subseteq> set (index df)"
    using inside by (auto simp: set_failed_rows rows_in_def)
  then have "card (set (failed_rows (errors rep))) \<le> card (set (index df))"
    by (rule card_mono[rotated]) simp
  also have "\<dots> \<le> nrows df"
    unfolding nrows_def by (rule card_length)
  finally have "card (set (failed_rows (errors rep))) \<le> nrows df" .
  moreover have "rows_failed (summary rep) = card (set (failed_rows (errors rep)))"
    using rep by (simp add: build_report_def set_failed_rows length_failed_rows)
  moreover have "rows_checked (summary rep) = nrows df"
    using rep loc by (simp add: build_report_def)
  ultimately show ?thesis using inside by (simp add: rows_in_def)
qed

lemma labelled_run: "validate_data ref_lib labelled_df labelled_config = Inr labelled_report"
  by code_simp

theorem violation_rows_in_table_witness:
  "validate_data ref_lib labelled_df labelled_config = Inr labelled_report
   \<and> index labelled_df = [10, 20, 30]
   \<and> map row (errors labelled_report) = [Some 10, Some 20, Some 30, Some 20, Some 30]
   \<and> list_all (\<lambda>v. case row v of None \<Rightarrow> True | Some l \<Rightarrow> l \<in> set (index labelled_df))
        (errors labelled_report)
   \<and> rows_failed (summary labelled_report) = 3
   \<and> rows_checked (summary labelled_report) = 3
   \<and> rows_failed (summary labelled_report) \<le> rows_checked (summary labelled_report)"
proof -
  have a: "index labelled_df = [10, 20, 30]"
    "map row (errors labelled_report) = [Some 10, Some 20, Some 30, Some 20, Some 30]"
    "rows_failed (summary labelled_report) = 3" "rows_checked (summary labelled_report) = 3"
    by (simp_all add: labelled_df_def labelled_report_def)
  from violation_rows_in_table[OF labelled_run] a labelled_run show ?thesis
    by (auto simp: list_all_iff split: option.splits)
qed

section \<open>Rules and the table\<close>

lemma ghost_run: "validate_data ref_lib test_df ghost_config = Inr ghost_report"
  by code_simp

lemma mixed_run: "validate_data ref_lib mixed_df mixed_config = Inr mixed_report"
  by code_simp

text \<open>
  C8. A rule that names a column absent from the table yields exactly one violation: it
  has no row, it carries the rule's column name and the message
  \<^verbatim>\<open>Column not found in dataset\<close>. None of the rule's other checks runs: the result is the
  one of the rule with every other key removed, whatever the keys hold. The rules after
  it still execute, from the state with this violation appended.
\<close>

theorem missing_column_single_violation:
  assumes "rule_column rule = Some col" "col \<noteq> []" "col \<notin> fst ` set (columns df)"
  shows "check_rule L df rule =
           Inr [\<lparr>row = None, column = col, error = ''Column not found in dataset''\<rparr>]
    \<and> check_rule L df rule = check_rule L df (empty_rule\<lparr>rule_column := Some col\<rparr>)
    \<and> validate_state L df \<lparr>rules = Some (before @ rule # after)\<rparr> =
        (case validate_state L df \<lparr>rules = Some before\<rparr> of
           Inl e \<Rightarrow> Inl e
         | Inr st \<Rightarrow>
             run_rules L after
               (st\<lparr>st_errors := st_errors st
                   @ [\<lparr>row = None, column = col, error = ''Column not found in dataset''\<rparr>]\<rparr>))"
proof -
  let ?v = "\<lparr>row = None, column = col, error = ''Column not found in dataset''\<rparr>"
  have a: "check_rule L d' rule = Inr [?v]" if "col \<notin> fst ` set (columns d')" for d'
    using check_rule_missing_column[OF assms(1,2) that] by (simp add: rule_error_def)
  have b: "check_rule L df (empty_rule\<lparr>rule_column := Some col\<rparr>) = Inr [?v]"
    using check_rule_missing_column[of "empty_rule\<lparr>rule_column := Some col\<rparr>" col df L] assms(2,3)
    by (simp add: rule_error_def)
  have c: "run_rules L (rule # after) st =
      run_rules L after (st\<lparr>st_errors := st_errors st @ [?v]\<rparr>)" if "st_df_local st = df" for st
    using a[OF assms(3)] that by (simp add: rule_step_def)
  have d: "run_rules L before (init_state df) = Inr st \<Longrightarrow> st_df_local st = df" for st
    by (drule run_rules_Inr) (simp add: init_state_def)
  have e: "validate_state L df \<lparr>rules = Some (before @ rule # after)\<rparr> =
        (case validate_state L df \<lparr>rules = Some before\<rparr> of
           Inl e \<Rightarrow> Inl e
         | Inr st \<Rightarrow> run_rules L after (st\<lparr>st_errors := st_errors st @ [?v]\<rparr>))"
  proof (cases "run_rules L before (init_state df)")
    case (Inl e)
    then show ?thesis by (simp add: validate_state_def get_rules_def run_rules_append)
  next
    case (Inr st)
    then show ?thesis
      using c[OF d[OF Inr]] by (simp add: validate_state_def get_rules_def run_rules_append)
  qed
  show ?thesis
    using a[OF assms(3)] b e by simp
qed

theorem missing_column_single_violation_witness:
  "rule_column ghost_rule = Some ''ghost'' \<and> ''ghost'' \<noteq> []
   \<and> ''ghost'' \<notin> fst ` set (columns test_df)
   \<and> check_rule ref_lib test_df ghost_rule =
       Inr [\<lparr>row = None, column = ''ghost'', error = ''Column not found in dataset''\<rparr>]
   \<and> validate_data ref_lib test_df ghost_config = Inr ghost_report"
  using missing_column_single_violation[of ghost_rule "''ghost''" test_df ref_lib] ghost_run
  by (simp add: ghost_rule_def empty_rule_def test_df_def)

text \<open>
  C7. A run that returns leaves the caller's table and the working copy as they were, and
  coercion is local to one rule: the violations of the run are, rule by rule, those of
  the rule checked alone against the caller's table. So when two rules name the same
  column, the checks of the second read the raw values, whatever type the first asked for.
\<close>

theorem coercion_transient:
  assumes "validate_data L df cfg = Inr rep"
  shows "\<exists>st. validate_state L df cfg = Inr st \<and> rep = build_report st
           \<and> st_df st = df \<and> st_df_local st = df
           \<and> (\<exists>vss. list_all2 (\<lambda>r vs. check_rule L df r = Inr vs) (get_rules cfg) vss
                    \<and> errors rep = concat vss)"
proof -
  from assms obtain st where st: "validate_state L df cfg = Inr st" and rep: "rep = build_report st"
    by (auto simp: validate_data_Inr)
  from run_rules_Inr[OF st[unfolded validate_state_def]] rep
  have "st_df st = df \<and> st_df_local st = df
      \<and> (\<exists>vss. list_all2 (\<lambda>r vs. check_rule L df r = Inr vs) (get_rules cfg) vss
               \<and> errors rep = concat vss)"
    by (auto simp: init_state_def build_report_def)
  with st rep show ?thesis by blast
qed

theorem coercion_transient_witness:
  "validate_data ref_lib mixed_df mixed_config = Inr mixed_report
   \<and> (\<exists>st. validate_state ref_lib mixed_df mixed_config = Inr st \<and> mixed_report = build_report st
           \<and> st_df st = mixed_df \<and> st_df_local st = mixed_df
           \<and> (\<exists>vss. list_all2 (\<lambda>r vs. check_rule ref_lib mixed_df r = Inr vs)
                       (get_rules mixed_config) vss
                    \<and> errors mixed_report = concat vss))"
  using coercion_transient[OF mixed_run] mixed_run by blast

section \<open>The messages of the checks\<close>

lemma error_type_errors:
  "v \<in> set (type_errors d col t c s) \<Longrightarrow> error v = ''Type mismatch: expected '' @ t"
  by (auto simp: type_errors_def row_error_def)

lemma error_not_null: "v \<in> set (not_null_errors idx col s) \<Longrightarrow> error v = ''Null value not allowed''"
  by (auto simp: not_null_errors_def row_error_def)

lemma error_unique: "v \<in> set (unique_errors d col) \<Longrightarrow> error v = ''Duplicate value found''"
  by (auto simp: unique_errors_def row_error_def)

lemma error_range_cell:
  "v \<in> set (range_cell L col mn mx i val) \<Longrightarrow>
     take 6 (error v) = ''Value '' \<or> error v = ''Range check failed (incomparable types)''"
  by (auto simp: range_cell_def incomparable_def row_error_def split: if_splits sum.splits)

lemma error_range:
  "v \<in> set (range_errors L idx col mn mx s) \<Longrightarrow>
     take 6 (error v) = ''Value '' \<or> error v = ''Range check failed (incomparable types)''"
  by (auto simp: range_errors_def dest: error_range_cell split: if_splits)

lemma error_regex: "v \<in> set (regex_errors L idx col p s) \<Longrightarrow> take 16 (error v) = ''Regex mismatch: ''"
  by (auto simp: regex_errors_def row_error_def)

text \<open>The first two characters of a message tell which check has written it.\<close>

lemma kind_type_check:
  "type_check L d col ty s0 = Inr (errors1, s) \<Longrightarrow> v \<in> set errors1 \<Longrightarrow> take 2 (error v) = ''Ty''"
  by (auto simp: type_check_def dest!: error_type_errors split: option.splits if_splits sum.splits)

lemma kind_not_null: "v \<in> set (not_null_errors idx col s) \<Longrightarrow> take 2 (error v) = ''Nu''"
  by (auto dest: error_not_null)

lemma kind_unique: "v \<in> set (unique_errors d col) \<Longrightarrow> take 2 (error v) = ''Du''"
  by (auto dest: error_unique)

lemma kind_range:
  "v \<in> set (range_errors L idx col mn mx s) \<Longrightarrow> take 2 (error v) = ''Va'' \<or> take 2 (error v) = ''Ra''"
proof -
  assume "v \<in> set (range_errors L idx col mn mx s)"
  then consider "take 6 (error v) = ''Value ''" | "error v = ''Range check failed (incomparable types)''"
    using error_range by blast
  then show ?thesis
  proof cases
    case 1
    then have "take 2 (take 6 (error v)) = ''Va''" by simp
    then show ?thesis by (simp add: min_def)
  next
    case 2
    then show ?thesis by simp
  qed
qed

lemma kind_regex_check:
  "regex_check L idx col rx s = Inr errors5 \<Longrightarrow> v \<in> set errors5 \<Longrightarrow> take 2 (error v) = ''Re''"
proof -
  assume a: "regex_check L idx col rx s = Inr errors5" "v \<in> set errors5"
  then obtain p where "v \<in> set (regex_errors L idx col p s)"
    by (auto simp: regex_check_def split: option.splits)
  then have "take 2 (take 16 (error v)) = ''Re''" by (simp add: error_regex)
  then show ?thesis by (simp add: min_def)
qed

text \<open>Selecting the violations of one kind from the result of a rule.\<close>

lemma filter_kind:
  assumes "\<And>v. v \<in> set xs \<Longrightarrow> take 2 (error v) = k" "\<And>v. P v \<Longrightarrow> take 2 (error v) = k'" "k \<noteq> k'"
  shows "filter P xs = []"
  using assms by (auto simp: filter_empty_conv)


section \<open>Type coercion\<close>

lemma type_errors_rows:
  assumes "length coerced = nrows d" "length raw = nrows d"
  shows "type_errors d col t coerced raw =
           map (\<lambda>i. row_error (index d ! i) col (''Type mismatch: expected '' @ t))
             (filter (\<lambda>i. \<not> isna (raw ! i) \<and> isna (coerced ! i)) [0..<length raw])"
proof -
  have "index_where d (type_fail_mask coerced raw) =
          map (\<lambda>i. index d ! i) (filter (\<lambda>i. type_fail_mask coerced raw ! i) [0..<nrows d])"
    by (rule index_where_eq) (simp add: type_fail_mask_def assms)
  also have "filter (\<lambda>i. type_fail_mask coerced raw ! i) [0..<nrows d] =
      filter (\<lambda>i. \<not> isna (raw ! i) \<and> isna (coerced ! i)) [0..<nrows d]"
    by (rule filter_cong) (auto simp: type_fail_mask_def assms)
  finally show ?thesis by (simp add: type_errors_def assms o_def)
qed

text \<open>
  C6. For a rule with a type on a column of the table, a Type-mismatch violation is
  emitted for a row if and only if the original cell of the row is not null and the
  coerced cell is null: the violations with the message \<^verbatim>\<open>Type mismatch: expected <type>\<close> are
  exactly these rows, once each and in row order, each under the label that the index
  gives the row. In particular a cell that is null in the input yields no such violation,
  whatever the type and whatever the null is.
\<close>

theorem type_mismatch_rows:
  assumes "wf_df d" "rule_column r = Some col" "col \<noteq> []" "map_of (columns d) col = Some raw"
    "rule_type r = Some t" "t \<noteq> []" "check_rule L d r = Inr vs"
  shows "\<exists>coerced. coerce_series_to_type L raw t = Inr coerced \<and> length coerced = length raw
     \<and> filter (\<lambda>v. error v = ''Type mismatch: expected '' @ t) vs =
         map (\<lambda>i. row_error (index d ! i) col (''Type mismatch: expected '' @ t))
           (filter (\<lambda>i. \<not> isna (raw ! i) \<and> isna (coerced ! i)) [0..<length raw])
     \<and> (\<forall>l. (\<exists>v\<in>set vs. row v = Some l \<and> error v = ''Type mismatch: expected '' @ t)
            \<longleftrightarrow> (\<exists>i<length raw. index d ! i = l \<and> \<not> isna (raw ! i) \<and> isna (coerced ! i)))"
  using assms(7)
proof (cases rule: check_rule_Inr_cases)
  case missing_key
  then show ?thesis using assms(2,3) by auto
next
  case (missing_column col')
  then show ?thesis using assms(2,4) by auto
next
  case (checked col' s0 errors1 s errors5)
  let ?M = "''Type mismatch: expected '' @ t"
  let ?P = "\<lambda>v. error v = ?M"
  let ?rows = "filter (\<lambda>i. \<not> isna (raw ! i) \<and> isna (s ! i)) [0..<length raw]"
  have eq: "col' = col" "s0 = raw" using checked(1,3) assms(2,4) by auto
  have co: "coerce_series_to_type L raw t = Inr s" and e1: "errors1 = type_errors d col t s raw"
    using type_check_Inr(3)[OF checked(4)[unfolded eq] assms(5,6)] by auto
  have len: "length raw = nrows d" using wf_df_length[OF assms(1,4)] .
  have lens: "length s = length raw" using length_coerce[OF co] .
  have e1': "errors1 = map (\<lambda>i. row_error (index d ! i) col ?M) ?rows"
    unfolding e1 by (rule type_errors_rows) (simp_all add: len lens)
  have f1: "filter ?P errors1 = errors1"
    unfolding e1' by (simp add: row_error_def filter_map o_def)
  have f2: "filter ?P (if rule_not_null r then not_null_errors (index d) col' s else []) = []"
    by (rule filter_kind[where k = "''Nu''" and k' = "''Ty''"])
      (auto dest: kind_not_null split: if_splits)
  have f3: "filter ?P (if rule_unique r then unique_errors d col' else []) = []"
    by (rule filter_kind[where k = "''Du''" and k' = "''Ty''"])
      (auto dest: kind_unique split: if_splits)
  have f4: "filter ?P (range_errors L (index d) col' (rule_min r) (rule_max r) s) = []"
    by (auto simp: filter_empty_conv dest!: kind_range)
  have f5: "filter ?P errors5 = []"
    by (rule filter_kind[where k = "''Re''" and k' = "''Ty''"])
      (auto dest: kind_regex_check[OF checked(5)])
  have list: "filter ?P vs = map (\<lambda>i. row_error (index d ! i) col ?M) ?rows"
    unfolding checked(6) using f1 f2 f3 f4 f5 e1' by simp
  have "(\<exists>v\<in>set vs. row v = Some l \<and> ?P v) \<longleftrightarrow>
      (\<exists>i<length raw. index d ! i = l \<and> \<not> isna (raw ! i) \<and> isna (s ! i))" for l
  proof -
    have "(\<exists>v\<in>set vs. row v = Some l \<and> ?P v) \<longleftrightarrow> (\<exists>v\<in>set (filter ?P vs). row v = Some l)"
      by auto
    also have "\<dots> \<longleftrightarrow> (\<exists>i\<in>set ?rows. index d ! i = l)"
      unfolding list by (auto simp: row_error_def)
    finally show ?thesis by auto
  qed
  with co lens list show ?thesis by blast
qed

lemma coerce_run:
  "check_rule ref_lib coerce_df (int_rule ''n'') =
     Inr [\<lparr>row = Some 2, column = ''n'', error = ''Type mismatch: expected int''\<rparr>]"
  by code_simp

theorem type_mismatch_rows_witness:
  "wf_df coerce_df \<and> rule_column (int_rule ''n'') = Some ''n'' \<and> ''n'' \<noteq> []
   \<and> map_of (columns coerce_df) ''n'' = Some [StrV ''1'', Null PyNone, StrV ''x'']
   \<and> rule_type (int_rule ''n'') = Some ''int'' \<and> ''int'' \<noteq> []
   \<and> check_rule ref_lib coerce_df (int_rule ''n'') =
       Inr [\<lparr>row = Some 2, column = ''n'', error = ''Type mismatch: expected int''\<rparr>]
   \<and> (\<exists>coerced.
        coerce_series_to_type ref_lib [StrV ''1'', Null PyNone, StrV ''x''] ''int'' = Inr coerced
        \<and> length coerced = length [StrV ''1'', Null PyNone, StrV ''x'']
        \<and> filter (\<lambda>v. error v = ''Type mismatch: expected '' @ ''int'')
             [\<lparr>row = Some 2, column = ''n'', error = ''Type mismatch: expected int''\<rparr>] =
            map (\<lambda>i. row_error (index coerce_df ! i) ''n'' (''Type mismatch: expected '' @ ''int''))
              (filter (\<lambda>i. \<not> isna ([StrV ''1'', Null PyNone, StrV ''x''] ! i) \<and> isna (coerced ! i))
                 [0..<length [StrV ''1'', Null PyNone, StrV ''x'']])
        \<and> (\<forall>l. (\<exists>v\<in>set [\<lparr>row = Some 2, column = ''n'', error = ''Type mismatch: expected int''\<rparr>].
                    row v = Some l \<and> error v = ''Type mismatch: expected '' @ ''int'')
               \<longleftrightarrow> (\<exists>i<length [StrV ''1'', Null PyNone, StrV ''x'']. index coerce_df ! i = l
                      \<and> \<not> isna ([StrV ''1'', Null PyNone, StrV ''x''] ! i) \<and> isna (coerced ! i))))"
proof -
  have h: "wf_df coerce_df" "rule_column (int_rule ''n'') = Some ''n''" "''n'' \<noteq> []"
    "map_of (columns coerce_df) ''n'' = Some [StrV ''1'', Null PyNone, StrV ''x'']"
    "rule_type (int_rule ''n'') = Some ''int''" "''int'' \<noteq> []"
    by (simp_all add: wf_df_def nrows_def coerce_df_def int_rule_def empty_rule_def)
  from type_mismatch_rows[OF h coerce_run] h coerce_run show ?thesis by blast
qed

text \<open>
  A cell that \<^verbatim>\<open>to_numeric\<close> reads as a float with a fractional part makes the coercion to
  int raise: the cast to Int64 is safe and refuses the value.
\<close>

lemma int_coercion_raises:
  assumes "c \<in> set s" "to_numeric_cell L c = FloatV x" "of_int \<lfloor>x\<rfloor> \<noteq> x"
  shows "coerce_series_to_type L s ''int'' = Inl TypeError"
proof -
  have a: "try_map Int64_cell xs = Inl TypeError" if "FloatV x \<in> set xs" for xs
    using that assms(3)
  proof (induction xs)
    case Nil
    then show ?case by simp
  next
    case (Cons y ys)
    then show ?case by (cases y) (auto split: sum.splits)
  qed
  have v: "FloatV x \<in> set (map (to_numeric_cell L) s)"
    using assms(1,2) by force
  then have "as_float L (FloatV x) \<in> set (map (as_float L) (map (to_numeric_cell L) s))"
    unfolding set_map[of "as_float L"] by (rule imageI)
  with v have "FloatV x \<in> set (to_numeric L s)"
    by (simp add: to_numeric_def Let_def)
  then show ?thesis
    by (simp add: coerce_series_to_type_def astype_Int64_def a)
qed

text \<open>
  C1, on the code. The claim is that a cell which parses only as a non-integral float
  (\<^verbatim>\<open>'3.5'\<close>) under a rule with type int yields one Type-mismatch violation and that the run
  completes. The code does not do that: \<^verbatim>\<open>to_numeric\<close> gives the float 3.5 and the cast to
  Int64 raises TypeError, which leaves \<^verbatim>\<open>validate_data\<close> without a report.
\<close>

theorem int_coercion_of_fraction_raises:
  "to_numeric ref_lib [StrV ''3.5''] = [FloatV (7 / 2)]
   \<and> coerce_series_to_type ref_lib [StrV ''3.5''] ''int'' = Inl TypeError
   \<and> validate_data ref_lib frac_df \<lparr>rules = Some [int_rule ''age'']\<rparr> = Inl TypeError"
  by code_simp

section \<open>Uniqueness\<close>

lemma key_eq_refl: "key_eq c c"
  by (cases c) (simp_all add: key_eq_def)

lemma key_eq_Null: "key_eq (Null k) c \<longleftrightarrow> c = Null k"
  by (cases c) (auto simp: key_eq_def)

lemma two_occurrences:
  assumes "i < length xs" "P (xs ! i)"
  shows "2 \<le> length (filter P xs) \<longleftrightarrow> (\<exists>j<length xs. j \<noteq> i \<and> P (xs ! j))"
proof -
  let ?S = "{k. k < length xs \<and> P (xs ! k)}"
  have fin: "finite ?S" by simp
  have len: "length (filter P xs) = card ?S" by (rule length_filter_conv_card)
  have i: "i \<in> ?S" using assms by simp
  show ?thesis
  proof
    assume "2 \<le> length (filter P xs)"
    then have "card (?S - {i}) \<ge> 1" using len i fin by simp
    then have "?S - {i} \<noteq> {}" by (auto simp: Suc_le_eq card_gt_0_iff)
    then show "\<exists>j<length xs. j \<noteq> i \<and> P (xs ! j)" by auto
  next
    assume "\<exists>j<length xs. j \<noteq> i \<and> P (xs ! j)"
    then obtain j where j: "j \<in> ?S" "j \<noteq> i" by auto
    then have "{i, j} \<subseteq> ?S" using i by simp
    then have "card {i, j} \<le> card ?S" using fin card_mono by blast
    then show "2 \<le> length (filter P xs)" using j(2) len by simp
  qed
qed

lemma unique_errors_rows:
  assumes "map_of (columns d) col = Some raw" "length raw = nrows d"
  shows "unique_errors d col =
           map (\<lambda>i. row_error (index d ! i) col ''Duplicate value found'')
             (filter (\<lambda>i. \<exists>j<length raw. j \<noteq> i \<and> key_eq (raw ! i) (raw ! j)) [0..<length raw])"
proof -
  let ?m = "duplicated d col"
  have m: "?m = map (\<lambda>v. 2 \<le> length (filter (key_eq v) raw)) raw"
    using assms(1) by (simp add: duplicated_def)
  have "index_where d ?m = map (\<lambda>i. index d ! i) (filter (\<lambda>i. ?m ! i) [0..<nrows d])"
    by (rule index_where_eq) (simp add: m assms(2))
  also have "filter (\<lambda>i. ?m ! i) [0..<nrows d] =
      filter (\<lambda>i. \<exists>j<length raw. j \<noteq> i \<and> key_eq (raw ! i) (raw ! j)) [0..<nrows d]"
    by (rule filter_cong) (auto simp: m assms(2) two_occurrences key_eq_refl)
  finally show ?thesis by (simp add: unique_errors_def assms(2) o_def)
qed

text \<open>
  C3. For a rule with \<^verbatim>\<open>unique: true\<close> the check reads the raw column of the table, whatever
  type the rule asks for: the violations with the message \<^verbatim>\<open>Duplicate value found\<close> are
  exactly the rows whose raw value occurs in another row too, the first occurrence
  included, once each and in row order. A null is a key like any other value, and it is
  equal to itself only: in a table whose labels are distinct, the row of a null cell is
  reported if and only if another row holds the same null (NaN with NaN, None with None;
  a None and a NaN are two values). For the column \<^verbatim>\<open>[1, 2, 2, 3]\<close> the rows are 1 and 2.
\<close>

theorem duplicates_on_raw_values:
  assumes "wf_df d" "rule_column r = Some col" "col \<noteq> []" "map_of (columns d) col = Some raw"
    "rule_unique r" "check_rule L d r = Inr vs"
  shows "filter (\<lambda>v. error v = ''Duplicate value found'') vs =
           map (\<lambda>i. row_error (index d ! i) col ''Duplicate value found'')
             (filter (\<lambda>i. \<exists>j<length raw. j \<noteq> i \<and> key_eq (raw ! i) (raw ! j)) [0..<length raw])
         \<and> (\<forall>k c. key_eq (Null k) c \<longleftrightarrow> c = Null k)
         \<and> (distinct (index d) \<longrightarrow>
              (\<forall>i<length raw.
                 row_error (index d ! i) col ''Duplicate value found'' \<in> set vs
                   \<longleftrightarrow> (\<exists>j<length raw. j \<noteq> i \<and> key_eq (raw ! i) (raw ! j))))
         \<and> (distinct (index d) \<longrightarrow>
              (\<forall>i<length raw. isna (raw ! i) \<longrightarrow>
                 (row_error (index d ! i) col ''Duplicate value found'' \<in> set vs
                    \<longleftrightarrow> (\<exists>j<length raw. j \<noteq> i \<and> raw ! j = raw ! i))))"
  using assms(6)
proof (cases rule: check_rule_Inr_cases)
  case missing_key
  then show ?thesis using assms(2,3) by auto
next
  case (missing_column col')
  then show ?thesis using assms(2,4) by auto
next
  case (checked col' s0 errors1 s errors5)
  let ?D = "''Duplicate value found''"
  let ?P = "\<lambda>v. error v = ?D"
  let ?dup = "\<lambda>i. \<exists>j<length raw. j \<noteq> i \<and> key_eq (raw ! i) (raw ! j)"
  have eq: "col' = col" "s0 = raw" using checked(1,3) assms(2,4) by auto
  have len: "length raw = nrows d" using wf_df_length[OF assms(1,4)] .
  have f1: "filter ?P errors1 = []"
    by (rule filter_kind[where k = "''Ty''" and k' = "''Du''"])
      (auto dest: kind_type_check[OF checked(4)])
  have f2: "filter ?P (if rule_not_null r then not_null_errors (index d) col' s else []) = []"
    by (rule filter_kind[where k = "''Nu''" and k' = "''Du''"])
      (auto dest: kind_not_null split: if_splits)
  have f3: "filter ?P (unique_errors d col) = unique_errors d col"
    by (auto simp: filter_id_conv dest: error_unique)
  have f4: "filter ?P (range_errors L (index d) col' (rule_min r) (rule_max r) s) = []"
    by (auto simp: filter_empty_conv dest!: kind_range)
  have f5: "filter ?P errors5 = []"
    by (rule filter_kind[where k = "''Re''" and k' = "''Du''"])
      (auto dest: kind_regex_check[OF checked(5)])
  have list: "filter ?P vs =
      map (\<lambda>i. row_error (index d ! i) col ?D) (filter ?dup [0..<length raw])"
    unfolding checked(6) using f1 f2 f3 f4 f5 assms(5) eq unique_errors_rows[OF assms(4) len]
    by simp
  have mem: "row_error (index d ! i) col ?D \<in> set vs \<longleftrightarrow> ?dup i"
    if dist: "distinct (index d)" and i: "i < length raw" for i
  proof -
    have "row_error (index d ! i) col ?D \<in> set vs
        \<longleftrightarrow> row_error (index d ! i) col ?D \<in> set (filter ?P vs)"
      by (simp add: row_error_def)
    also have "\<dots> \<longleftrightarrow> (\<exists>i'<length raw. ?dup i' \<and> index d ! i' = index d ! i)"
      unfolding list set_map image_iff by (auto simp: row_error_def)
    also have "\<dots> \<longleftrightarrow> ?dup i"
      using dist i len by (auto simp: nth_eq_iff_index_eq nrows_def)
    finally show ?thesis .
  qed
  have null: "?dup i \<longleftrightarrow> (\<exists>j<length raw. j \<noteq> i \<and> raw ! j = raw ! i)" if "isna (raw ! i)" for i
  proof -
    from that obtain k where "raw ! i = Null k" by (cases "raw ! i") auto
    then show ?thesis by (simp add: key_eq_Null)
  qed
  show ?thesis
    using list mem null by (simp add: key_eq_Null)
qed

lemma dup_run:
  "check_rule ref_lib dup_df (unique_rule ''id'') =
     Inr [\<lparr>row = Some 1, column = ''id'', error = ''Duplicate value found''\<rparr>,
          \<lparr>row = Some 2, column = ''id'', error = ''Duplicate value found''\<rparr>]"
  by code_simp

lemma null_keys_run:
  "check_rule ref_lib null_keys_df (unique_rule ''id'') =
     Inr [\<lparr>row = Some 0, column = ''id'', error = ''Duplicate value found''\<rparr>,
          \<lparr>row = Some 2, column = ''id'', error = ''Duplicate value found''\<rparr>]"
  by code_simp

lemma none_nan_run: "check_rule ref_lib none_nan_df (unique_rule ''id'') = Inr []"
  by code_simp

theorem duplicates_on_raw_values_witness:
  "wf_df dup_df \<and> rule_column (unique_rule ''id'') = Some ''id'' \<and> ''id'' \<noteq> []
   \<and> map_of (columns dup_df) ''id'' = Some [IntV 1, IntV 2, IntV 2, IntV 3]
   \<and> rule_unique (unique_rule ''id'')
   \<and> check_rule ref_lib dup_df (unique_rule ''id'') =
       Inr [\<lparr>row = Some 1, column = ''id'', error = ''Duplicate value found''\<rparr>,
            \<lparr>row = Some 2, column = ''id'', error = ''Duplicate value found''\<rparr>]
   \<and> filter (\<lambda>v. error v = ''Duplicate value found'')
        [\<lparr>row = Some 1, column = ''id'', error = ''Duplicate value found''\<rparr>,
         \<lparr>row = Some 2, column = ''id'', error = ''Duplicate value found''\<rparr>] =
       map (\<lambda>i. row_error (index dup_df ! i) ''id'' ''Duplicate value found'')
         (filter (\<lambda>i. \<exists>j<length [IntV 1, IntV 2, IntV 2, IntV 3]. j \<noteq> i
                    \<and> key_eq ([IntV 1, IntV 2, IntV 2, IntV 3] ! i)
                         ([IntV 1, IntV 2, IntV 2, IntV 3] ! j))
            [0..<length [IntV 1, IntV 2, IntV 2, IntV 3]])
   \<and> wf_df null_keys_df \<and> distinct (index null_keys_df)
   \<and> map_of (columns null_keys_df) ''id'' = Some [Null NaN, StrV ''a'', Null NaN, Null PyNone]
   \<and> check_rule ref_lib null_keys_df (unique_rule ''id'') =
       Inr [\<lparr>row = Some 0, column = ''id'', error = ''Duplicate value found''\<rparr>,
            \<lparr>row = Some 2, column = ''id'', error = ''Duplicate value found''\<rparr>]
   \<and> isna ([Null NaN, StrV ''a'', Null NaN, Null PyNone] ! 0)
   \<and> [Null NaN, StrV ''a'', Null NaN, Null PyNone] ! 2 = [Null NaN, StrV ''a'', Null NaN, Null PyNone] ! 0
   \<and> row_error (index null_keys_df ! 0) ''id'' ''Duplicate value found''
       \<in> set [\<lparr>row = Some 0, column = ''id'', error = ''Duplicate value found''\<rparr>,
               \<lparr>row = Some 2, column = ''id'', error = ''Duplicate value found''\<rparr>]
   \<and> isna ([Null NaN, StrV ''a'', Null NaN, Null PyNone] ! 3)
   \<and> row_error (index null_keys_df ! 3) ''id'' ''Duplicate value found''
       \<notin> set [\<lparr>row = Some 0, column = ''id'', error = ''Duplicate value found''\<rparr>,
               \<lparr>row = Some 2, column = ''id'', error = ''Duplicate value found''\<rparr>]
   \<and> wf_df none_nan_df
   \<and> map_of (columns none_nan_df) ''id'' = Some [Null PyNone, StrV ''a'', Null NaN]
   \<and> check_rule ref_lib none_nan_df (unique_rule ''id'') = Inr []
   \<and> filter (\<lambda>i. \<exists>j<length [Null PyNone, StrV ''a'', Null NaN]. j \<noteq> i
                \<and> key_eq ([Null PyNone, StrV ''a'', Null NaN] ! i)
                     ([Null PyNone, StrV ''a'', Null NaN] ! j))
        [0..<length [Null PyNone, StrV ''a'', Null NaN]] = []"
proof -
  let ?raw = "[Null NaN, StrV ''a'', Null NaN, Null PyNone]"
  let ?vs = "[\<lparr>row = Some 0, column = ''id'', error = ''Duplicate value found''\<rparr>,
              \<lparr>row = Some 2, column = ''id'', error = ''Duplicate value found''\<rparr>]"
  have r: "rule_column (unique_rule ''id'') = Some ''id''" "''id'' \<noteq> []"
    "rule_unique (unique_rule ''id'')"
    by (simp_all add: unique_rule_def empty_rule_def)
  have h: "wf_df dup_df"
    "map_of (columns dup_df) ''id'' = Some [IntV 1, IntV 2, IntV 2, IntV 3]"
    by (simp_all add: wf_df_def nrows_def dup_df_def)
  have n: "wf_df null_keys_df" "map_of (columns null_keys_df) ''id'' = Some ?raw"
    "distinct (index null_keys_df)"
    by (simp_all add: wf_df_def nrows_def null_keys_df_def)
  have m: "wf_df none_nan_df"
    "map_of (columns none_nan_df) ''id'' = Some [Null PyNone, StrV ''a'', Null NaN]"
    by (simp_all add: wf_df_def nrows_def none_nan_df_def)
  note D = duplicates_on_raw_values[OF h(1) r(1,2) h(2) r(3) dup_run]
  note N = duplicates_on_raw_values[OF n(1) r(1,2) n(2) r(3) null_keys_run]
  note M = duplicates_on_raw_values[OF m(1) r(1,2) m(2) r(3) none_nan_run]
  have i0: "isna (?raw ! 0)" "?raw ! 2 = ?raw ! 0" and i3: "isna (?raw ! 3)"
    by simp_all
  from N n(3) have N4: "\<forall>i<length ?raw. isna (?raw ! i) \<longrightarrow>
      (row_error (index null_keys_df ! i) ''id'' ''Duplicate value found'' \<in> set ?vs
         \<longleftrightarrow> (\<exists>j<length ?raw. j \<noteq> i \<and> ?raw ! j = ?raw ! i))"
    by blast
  have l: "0 < length ?raw" "3 < length ?raw"
    by simp_all
  have e0: "\<exists>j<length ?raw. j \<noteq> 0 \<and> ?raw ! j = ?raw ! 0"
    by (rule exI[of _ 2]) simp
  have e3: "\<not> (\<exists>j<length ?raw. j \<noteq> 3 \<and> ?raw ! j = ?raw ! 3)"
    by (simp add: Ex_less_Suc numeral_eq_Suc)
  from N4 l(1) i0(1) e0
  have a: "row_error (index null_keys_df ! 0) ''id'' ''Duplicate value found'' \<in> set ?vs"
    by blast
  from N4 l(2) i3 e3
  have b: "row_error (index null_keys_df ! 3) ''id'' ''Duplicate value found'' \<notin> set ?vs"
    by blast
  have c: "filter (\<lambda>i. \<exists>j<length [Null PyNone, StrV ''a'', Null NaN]. j \<noteq> i
                \<and> key_eq ([Null PyNone, StrV ''a'', Null NaN] ! i)
                     ([Null PyNone, StrV ''a'', Null NaN] ! j))
        [0..<length [Null PyNone, StrV ''a'', Null NaN]] = []"
    using M by (simp del: upt_Suc)
  from D r h n m dup_run null_keys_run none_nan_run i0 i3 a b c show ?thesis
    by blast
qed

text \<open>
  The coerced column of the example holds the float 2 twice; the raw strings differ, and
  the rule reports no duplicate.
\<close>

lemma unique_reads_raw_values:
  "coerce_series_to_type ref_lib [StrV ''2'', StrV ''2.0'', StrV ''7''] ''float''
     = Inr [FloatV 2, FloatV 2, FloatV 7]
   \<and> check_rule ref_lib text_keys_df float_unique_rule = Inr []"
  by code_simp

section \<open>Range\<close>






















section \<open>Regex\<close>

text \<open>
  The matcher is correct: \<open>adv\<close> computes the end positions of the matches, so
  \<open>fullmatch\<close> holds exactly when the pattern matches the text from its first position to
  its last, and \<open>search\<close> when it matches between any two positions.
\<close>

lemma matches_bounds: "matches r s i j \<Longrightarrow> i \<le> j \<and> (i < j \<longrightarrow> j \<le> length s)"
  by (induction rule: matches.induct) auto

lemma star_snoc: "matches (Star a) s i k \<Longrightarrow> matches a s k j \<Longrightarrow> matches (Star a) s i j"
proof (induction "Star a" s i k rule: matches.induct)
  case (m_Star0 s i)
  then show ?case using matches.m_Star matches.m_Star0 by blast
next
  case (m_Star s i k j')
  then show ?case using matches.m_Star by blast
qed

text \<open>A starred match is a chain of non-empty matches of the body.\<close>

lemma star_chain:
  "matches (Star a) s i j \<Longrightarrow>
     \<exists>m. (i, j) \<in> {(x, y). matches a s x y \<and> x \<noteq> y} ^^ m"
proof (induction "Star a" s i j rule: matches.induct)
  case (m_Star0 s i)
  have "(i, i) \<in> {(x, y). matches a s x y \<and> x \<noteq> y} ^^ 0" by simp
  then show ?case by blast
next
  case (m_Star s i k j)
  then obtain m where m: "(k, j) \<in> {(x, y). matches a s x y \<and> x \<noteq> y} ^^ m" by blast
  show ?case
  proof (cases "i = k")
    case True
    then show ?thesis using m by blast
  next
    case False
    then have "(i, k) \<in> {(x, y). matches a s x y \<and> x \<noteq> y}" using m_Star(1) by simp
    then have "(i, j) \<in> {(x, y). matches a s x y \<and> x \<noteq> y} ^^ Suc m"
      using m by (meson relpow_Suc_I2)
    then show ?thesis by blast
  qed
qed

lemma chain_length:
  "(i, j) \<in> {(x, y). matches a s x y \<and> x \<noteq> y} ^^ m \<Longrightarrow> i + m \<le> j \<and> (0 < m \<longrightarrow> j \<le> length s)"
proof (induction m arbitrary: j)
  case 0
  then show ?case by simp
next
  case (Suc m)
  then obtain k where k: "(i, k) \<in> {(x, y). matches a s x y \<and> x \<noteq> y} ^^ m"
    and kj: "matches a s k j" "k \<noteq> j" by auto
  from matches_bounds[OF kj(1)] kj(2) have "k < j" "j \<le> length s" by auto
  with Suc.IH[OF k] show ?case by simp
qed

lemma mem_star_step: "j \<in> star_step a s Q \<longleftrightarrow> j \<in> Q \<or> (\<exists>i\<in>Q. matches a s i j)"
  by (simp add: star_step_def)

lemma star_step_Suc:
  "j \<in> (star_step a s ^^ Suc m) S \<longleftrightarrow>
     j \<in> (star_step a s ^^ m) S \<or> (\<exists>i\<in>(star_step a s ^^ m) S. matches a s i j)"
  unfolding funpow.simps o_apply by (rule mem_star_step)

lemma star_step_sound:
  "j \<in> (star_step a s ^^ m) S \<Longrightarrow> \<exists>i\<in>S. matches (Star a) s i j"
proof (induction m arbitrary: j)
  case 0
  then show ?case using m_Star0 by auto
next
  case (Suc m)
  then consider "j \<in> (star_step a s ^^ m) S"
    | k where "k \<in> (star_step a s ^^ m) S" "matches a s k j"
    unfolding star_step_Suc by blast
  then show ?case
  proof cases
    case 1
    then show ?thesis using Suc.IH by blast
  next
    case 2
    then show ?thesis using Suc.IH star_snoc by blast
  qed
qed

lemma star_step_mono: "m \<le> n \<Longrightarrow> (star_step a s ^^ m) S \<subseteq> (star_step a s ^^ n) S"
proof (induction n)
  case 0
  then show ?case by simp
next
  case (Suc n)
  show ?case
  proof (cases "m = Suc n")
    case True
    then show ?thesis by simp
  next
    case False
    then have "(star_step a s ^^ m) S \<subseteq> (star_step a s ^^ n) S" using Suc by simp
    then show ?thesis unfolding subset_iff star_step_Suc by blast
  qed
qed

lemma star_step_chain:
  "(i, j) \<in> {(x, y). matches a s x y \<and> x \<noteq> y} ^^ m \<Longrightarrow> i \<in> S \<Longrightarrow>
     j \<in> (star_step a s ^^ m) S"
proof (induction m arbitrary: j)
  case 0
  then show ?case by simp
next
  case (Suc m)
  then obtain k where "(i, k) \<in> {(x, y). matches a s x y \<and> x \<noteq> y} ^^ m" "matches a s k j"
    by auto
  then show ?case unfolding star_step_Suc using Suc.IH[OF _ Suc.prems(2)] by blast
qed

lemma star_step_complete:
  assumes "matches (Star a) s i j" "i \<in> S"
  shows "j \<in> (star_step a s ^^ Suc (length s)) S"
proof -
  from star_chain[OF assms(1)] obtain m
    where m: "(i, j) \<in> {(x, y). matches a s x y \<and> x \<noteq> y} ^^ m" by blast
  from chain_length[OF m] have "m \<le> Suc (length s)" by (cases m) auto
  then show ?thesis
    using star_step_chain[OF m assms(2)] star_step_mono by blast
qed

lemma set_fold_rounds:
  assumes "\<And>Q. set (g Q) = F (set Q)"
  shows "set (fold (\<lambda>_. g) xs X) = (F ^^ length xs) (set X)"
proof (induction xs arbitrary: X)
  case Nil
  then show ?case by simp
next
  case (Cons x xs)
  then show ?case by (simp add: assms funpow_swap1)
qed

theorem adv_matches: "set (adv r s P) = {j. \<exists>i\<in>set P. matches r s i j}"
proof (induction r arbitrary: P)
  case Empty
  then show ?case by (auto intro: matches.intros elim: m_EmptyE)
next
  case (Lit a)
  then show ?case by (auto simp: take_char_def intro: matches.intros elim!: m_LitE)
next
  case AnyChar
  then show ?case by (auto simp: take_char_def intro: matches.intros elim!: m_AnyCharE)
next
  case (CSet neg its)
  then show ?case by (auto simp: take_char_def intro: matches.intros elim!: m_CSetE)
next
  case Bol
  then show ?case by (auto intro: matches.intros elim!: m_BolE)
next
  case Eol
  then show ?case by (auto intro: matches.intros elim!: m_EolE)
next
  case (Seq a b)
  show ?case
  proof (intro set_eqI iffI)
    fix j assume "j \<in> set (adv (Seq a b) s P)"
    then show "j \<in> {j. \<exists>i\<in>set P. matches (Seq a b) s i j}"
      using Seq by (auto intro: matches.intros)
  next
    fix j assume "j \<in> {j. \<exists>i\<in>set P. matches (Seq a b) s i j}"
    then obtain i k where "i \<in> set P" "matches a s i k" "matches b s k j"
      by (auto elim!: m_SeqE)
    then show "j \<in> set (adv (Seq a b) s P)"
      using Seq by auto
  qed
next
  case (Alt a b)
  then show ?case by (auto intro: matches.intros elim!: m_AltE)
next
  case (Star a)
  have g: "set (remdups (Q @ adv a s Q)) = star_step a s (set Q)" for Q
    unfolding set_eq_iff mem_star_step by (simp add: Star)
  have "set (adv (Star a) s P) = (star_step a s ^^ length s) (set (remdups (P @ adv a s P)))"
    unfolding adv.simps by (rule set_fold_rounds[where F = "star_step a s", OF g])
  also have "\<dots> = (star_step a s ^^ Suc (length s)) (set P)"
    unfolding g by (simp add: funpow_swap1)
  also have "\<dots> = {j. \<exists>i\<in>set P. matches (Star a) s i j}"
    using star_step_sound star_step_complete by blast
  finally show ?case .
qed

corollary fullmatch_iff: "fullmatch r s \<longleftrightarrow> matches r s 0 (length s)"
  by (simp add: fullmatch_def adv_matches)

corollary search_iff: "search r s \<longleftrightarrow> (\<exists>i j. i \<le> length s \<and> matches r s i j)"
proof -
  have "search r s \<longleftrightarrow> set (adv r s [0..<Suc (length s)]) \<noteq> {}"
    by (simp add: search_def)
  also have "\<dots> \<longleftrightarrow> (\<exists>i j. i \<le> length s \<and> matches r s i j)"
  proof -
    have "set [0..<Suc (length s)] = {i. i \<le> length s}" by auto
    then show ?thesis unfolding adv_matches by auto
  qed
  finally show ?thesis .
qed


lemma regex_errors_rows:
  "regex_errors L idx col pattern s =
     map (\<lambda>i. row_error (idx ! i) col (''Regex mismatch: '' @ py_str L (s ! i)))
       (filter (\<lambda>i. \<not> isna (s ! i) \<and> \<not> fullmatch pattern (py_str L (s ! i)))
          [0..<min (length idx) (length s)])"
proof -
  have "filter (\<lambda>(idx, val). regex_mismatch L val pattern) (items idx s) =
          map (\<lambda>i. (idx ! i, s ! i))
            (filter (\<lambda>i. \<not> isna (s ! i) \<and> \<not> fullmatch pattern (py_str L (s ! i)))
               [0..<min (length idx) (length s)])"
    unfolding items_def zip_positions filter_map
    by (rule arg_cong[where f = "map (\<lambda>i. (idx ! i, s ! i))"], rule filter_cong)
      (auto simp: regex_mismatch_def)
  then show ?thesis by (simp add: regex_errors_def o_def)
qed

lemma regex_errors_of_rule:
  assumes "rule_column r = Some col" "col \<noteq> []" "map_of (columns d) col = Some raw"
    "rule_regex r = Some p" "check_rule L d r = Inr vs"
  shows "\<exists>pattern errors1 s. re_compile L p = Some pattern
     \<and> type_check L d col (rule_type r) raw = Inr (errors1, s) \<and> length s = length raw
     \<and> filter (\<lambda>v. take 16 (error v) = ''Regex mismatch: '') vs =
         map (\<lambda>i. row_error (index d ! i) col (''Regex mismatch: '' @ py_str L (s ! i)))
           (filter (\<lambda>i. \<not> isna (s ! i) \<and> \<not> fullmatch pattern (py_str L (s ! i)))
              [0..<min (nrows d) (length s)])"
  using assms(5)
proof (cases rule: check_rule_Inr_cases)
  case missing_key
  then show ?thesis using assms(1,2) by auto
next
  case (missing_column col')
  then show ?thesis using assms(1,3) by auto
next
  case (checked col' s0 errors1 s errors5)
  let ?P = "\<lambda>v. take 16 (error v) = ''Regex mismatch: ''"
  have eq: "col' = col" "s0 = raw" using checked(1,3) assms(1,3) by auto
  from checked(5) assms(4) obtain pattern where
    pat: "re_compile L p = Some pattern" and e5: "errors5 = regex_errors L (index d) col pattern s"
    by (auto simp: regex_check_def eq split: option.splits)
  have P: "take 2 (error v) = ''Re''" if "?P v" for v :: violation
  proof -
    from that have "take 2 (take 16 (error v)) = ''Re''" by simp
    then show ?thesis by (simp add: min_def)
  qed
  have f1: "filter ?P errors1 = []"
    by (rule filter_kind[where k = "''Ty''" and k' = "''Re''"])
      (auto dest: kind_type_check[OF checked(4)] P)
  have f2: "filter ?P (if rule_not_null r then not_null_errors (index d) col' s else []) = []"
    by (rule filter_kind[where k = "''Nu''" and k' = "''Re''"])
      (auto dest: kind_not_null P split: if_splits)
  have f3: "filter ?P (if rule_unique r then unique_errors d col' else []) = []"
    by (rule filter_kind[where k = "''Du''" and k' = "''Re''"])
      (auto dest: kind_unique P split: if_splits)
  have f4: "filter ?P (range_errors L (index d) col' (rule_min r) (rule_max r) s) = []"
    by (auto simp: filter_empty_conv dest!: kind_range P)
  have f5: "filter ?P errors5 = errors5"
    unfolding e5 by (auto simp: filter_id_conv dest: error_regex)
  have "filter ?P vs = regex_errors L (index d) col pattern s"
    unfolding checked(6) using f1 f2 f3 f4 f5 e5 by simp
  with pat checked(4) eq type_check_Inr(1)[OF checked(4)] show ?thesis
    by (auto simp: regex_errors_rows nrows_def)
qed

lemma email_compile: "ref_compile email_pattern = Some email_regex"
  by code_simp

lemma email_matches:
  "\<not> fullmatch email_regex ''bad@''" "fullmatch email_regex ''a@b.com''"
  by code_simp+

lemma bad_substring:
  "ref_compile ''bad'' = Some (Seq (Lit (CHR ''b'')) (Seq (Lit (CHR ''a'')) (Lit (CHR ''d''))))"
  "search (Seq (Lit (CHR ''b'')) (Seq (Lit (CHR ''a'')) (Lit (CHR ''d'')))) ''bad@''"
  "\<not> fullmatch (Seq (Lit (CHR ''b'')) (Seq (Lit (CHR ''a'')) (Lit (CHR ''d'')))) ''bad@''"
  by code_simp+

text \<open>
  C5. For a rule with a pattern on a column of the table, the pattern compiles and, for
  each non-null value of the (possibly coerced) column, the text of the value must match
  the pattern from its first to its last character (\<open>fullmatch\<close> is a match from position
  0 to the length of the text): the violations with a message
  \<^verbatim>\<open>Regex mismatch: <value>\<close> are exactly the rows whose value is not null and whose text is
  not matched in full, once each and in row order, each under the label that the index
  gives the row; nulls are skipped. The pattern \<^verbatim>\<open>^[^@\s]+@[^@\s]+\.[^@\s]+$\<close> rejects \<^verbatim>\<open>bad@\<close>
  and accepts \<^verbatim>\<open>a@b.com\<close>, and a value in which a substring search finds the pattern
  (\<^verbatim>\<open>bad\<close> in \<^verbatim>\<open>bad@\<close>) is still a mismatch.
\<close>

theorem regex_full_match:
  "(rule_column r = Some col \<and> col \<noteq> [] \<and> map_of (columns d) col = Some raw
      \<and> rule_regex r = Some p \<and> check_rule L d r = Inr vs
    \<longrightarrow> (\<exists>pattern errors1 s. re_compile L p = Some pattern
          \<and> type_check L d col (rule_type r) raw = Inr (errors1, s) \<and> length s = length raw
          \<and> filter (\<lambda>v. take 16 (error v) = ''Regex mismatch: '') vs =
              map (\<lambda>i. row_error (index d ! i) col (''Regex mismatch: '' @ py_str L (s ! i)))
                (filter (\<lambda>i. \<not> isna (s ! i) \<and> \<not> fullmatch pattern (py_str L (s ! i)))
                   [0..<min (nrows d) (length s)])))
   \<and> (\<forall>pattern t. fullmatch pattern t \<longleftrightarrow> matches pattern t 0 (length t))
   \<and> (\<exists>pattern. re_compile ref_lib email_pattern = Some pattern
          \<and> regex_mismatch ref_lib (StrV ''bad@'') pattern
          \<and> \<not> regex_mismatch ref_lib (StrV ''a@b.com'') pattern)
   \<and> (\<exists>pattern. re_compile ref_lib ''bad'' = Some pattern
          \<and> search pattern ''bad@'' \<and> regex_mismatch ref_lib (StrV ''bad@'') pattern)"
proof (intro conjI impI)
  assume "rule_column r = Some col \<and> col \<noteq> [] \<and> map_of (columns d) col = Some raw
      \<and> rule_regex r = Some p \<and> check_rule L d r = Inr vs"
  then show "\<exists>pattern errors1 s. re_compile L p = Some pattern
          \<and> type_check L d col (rule_type r) raw = Inr (errors1, s) \<and> length s = length raw
          \<and> filter (\<lambda>v. take 16 (error v) = ''Regex mismatch: '') vs =
              map (\<lambda>i. row_error (index d ! i) col (''Regex mismatch: '' @ py_str L (s ! i)))
                (filter (\<lambda>i. \<not> isna (s ! i) \<and> \<not> fullmatch pattern (py_str L (s ! i)))
                   [0..<min (nrows d) (length s)])"
    using regex_errors_of_rule by blast
next
  show "\<forall>pattern t. fullmatch pattern t \<longleftrightarrow> matches pattern t 0 (length t)"
    by (simp add: fullmatch_iff)
next
  show "\<exists>pattern. re_compile ref_lib email_pattern = Some pattern
          \<and> regex_mismatch ref_lib (StrV ''bad@'') pattern
          \<and> \<not> regex_mismatch ref_lib (StrV ''a@b.com'') pattern"
    using email_compile email_matches
    by (auto simp: ref_lib_def regex_mismatch_def)
next
  show "\<exists>pattern. re_compile ref_lib ''bad'' = Some pattern
          \<and> search pattern ''bad@'' \<and> regex_mismatch ref_lib (StrV ''bad@'') pattern"
    using bad_substring
    by (auto simp: ref_lib_def regex_mismatch_def)
qed

lemma email_run:
  "check_rule ref_lib test_df email_rule =
     Inr [\<lparr>row = Some 1, column = ''email'', error = ''Regex mismatch: bad@''\<rparr>]"
  by code_simp

theorem regex_full_match_witness:
  "rule_column email_rule = Some ''email'' \<and> ''email'' \<noteq> []
   \<and> map_of (columns test_df) ''email'' = Some [StrV ''a@b.com'', StrV ''bad@'', StrV ''c@d.com'']
   \<and> rule_regex email_rule = Some email_pattern
   \<and> check_rule ref_lib test_df email_rule =
       Inr [\<lparr>row = Some 1, column = ''email'', error = ''Regex mismatch: bad@''\<rparr>]
   \<and> (\<exists>pattern errors1 s. re_compile ref_lib email_pattern = Some pattern
          \<and> type_check ref_lib test_df ''email'' (rule_type email_rule)
               [StrV ''a@b.com'', StrV ''bad@'', StrV ''c@d.com''] = Inr (errors1, s)
          \<and> length s = length [StrV ''a@b.com'', StrV ''bad@'', StrV ''c@d.com'']
          \<and> filter (\<lambda>v. take 16 (error v) = ''Regex mismatch: '')
               [\<lparr>row = Some 1, column = ''email'', error = ''Regex mismatch: bad@''\<rparr>] =
              map (\<lambda>i. row_error (index test_df ! i) ''email''
                         (''Regex mismatch: '' @ py_str ref_lib (s ! i)))
                (filter (\<lambda>i. \<not> isna (s ! i) \<and> \<not> fullmatch pattern (py_str ref_lib (s ! i)))
                   [0..<min (nrows test_df) (length s)]))"
proof -
  have h: "rule_column email_rule = Some ''email''" "''email'' \<noteq> []"
    "map_of (columns test_df) ''email'' = Some [StrV ''a@b.com'', StrV ''bad@'', StrV ''c@d.com'']"
    "rule_regex email_rule = Some email_pattern"
    by (simp_all add: email_rule_def empty_rule_def test_df_def)
  from regex_full_match[of email_rule "''email''" test_df _ email_pattern ref_lib] h email_run
  show ?thesis by blast
qed

end
